theory Spec2Isabelle
  imports Complex_Main "HOL-Library.Sublist" "HOL-Library.Multiset"
begin

section \<open>JavaScript strings\<close>

text \<open>
  A JavaScript string is a sequence of UTF-16 code units. A code unit is modelled as a
  natural number (the program never relies on the bound 65536). String literals of the
  source are written with \<open>js\<close>; a code unit outside ASCII is written as a number
  (225 is a-acute, 55357 and 56395 are the surrogate pair of the waving hand).
\<close>

type_synonym jsstring = "nat list"

definition js :: "string \<Rightarrow> jsstring" where
  "js s = map of_char s"

text \<open>
  \<open>String.prototype.toLowerCase\<close> on the texts whose code units are all below 256: the
  capital letters of Basic Latin and of the Latin-1 Supplement go to their small letters,
  one code unit at a time. On a text with a code unit from 256 on this is not the function
  of JavaScript, which follows the case tables of Unicode (and, for the capital sigma, the
  neighbours of the letter): such a code unit is left as it is here.

  The function is used in two places only. The synthesis compares the lowercased trigger
  with words of fixed vocabularies, all of Basic Latin except for the a-acute of two of
  them; the only letters from 256 on whose small letter lies below 256 are the Kelvin sign
  (k), the Angstrom sign (a with ring), the capital sharp s and the capital y with
  diaeresis, and no vocabulary word has one of these small letters, so a trigger with a
  code unit from 256 on equals no vocabulary word after either lowercasing. And the
  concrete runs of the simulation are on texts of Basic Latin. The simulation itself,
  which lowercases whatever the user types, does not use this function: it takes the
  lowercasing as a parameter.
\<close>

definition lower_unit :: "nat \<Rightarrow> nat" where
  "lower_unit c =
     (if (65 \<le> c \<and> c \<le> 90) \<or> (192 \<le> c \<and> c \<le> 222 \<and> c \<noteq> 215) then c + 32 else c)"

definition toLowerCase :: "jsstring \<Rightarrow> jsstring" where
  "toLowerCase s = map lower_unit s"

text \<open>\<open>s.includes(t)\<close>: \<open>t\<close> occurs in \<open>s\<close> as a contiguous substring.\<close>

definition includes_str :: "jsstring \<Rightarrow> jsstring \<Rightarrow> bool" where
  "includes_str s t = sublist t s"

text \<open>\<open>String.prototype.trim\<close> removes WhiteSpace and LineTerminator code units at both ends.\<close>

definition isWhiteSpace :: "nat \<Rightarrow> bool" where
  "isWhiteSpace c =
     ((9 \<le> c \<and> c \<le> 13) \<or> c = 32 \<or> c = 160 \<or> c = 5760 \<or> (8192 \<le> c \<and> c \<le> 8202)
      \<or> c = 8232 \<or> c = 8233 \<or> c = 8239 \<or> c = 8287 \<or> c = 12288 \<or> c = 65279)"

definition trim :: "jsstring \<Rightarrow> jsstring" where
  "trim s = rev (dropWhile isWhiteSpace (rev (dropWhile isWhiteSpace s)))"

text \<open>
  \<open>s.replace(/p/g, r)\<close> for a pattern \<open>p\<close> that is a plain text and a replacement without
  dollar patterns: scan from the left, replace each occurrence found and go on after it.
\<close>

function replaceAll :: "jsstring \<Rightarrow> jsstring \<Rightarrow> jsstring \<Rightarrow> jsstring" where
  "replaceAll p r [] = []"
| "replaceAll p r (c # cs) =
     (if p \<noteq> [] \<and> prefix p (c # cs) then r @ replaceAll p r (drop (length p) (c # cs))
      else c # replaceAll p r cs)"
  by pat_completeness auto
termination
  by (relation "measure (\<lambda>(p, r, s). length s)") (auto simp: neq_Nil_conv)

text \<open>\<open>s.replace(p, r)\<close> with a string pattern: only the first occurrence is replaced.\<close>

fun replaceFirst :: "jsstring \<Rightarrow> jsstring \<Rightarrow> jsstring \<Rightarrow> jsstring" where
  "replaceFirst p r [] = (if p = [] then r else [])"
| "replaceFirst p r (c # cs) =
     (if prefix p (c # cs) then r @ drop (length p) (c # cs) else c # replaceFirst p r cs)"

text \<open>\<open>Number.prototype.toString\<close> on a non-negative integer: its decimal digits.\<close>

function number_toString :: "nat \<Rightarrow> jsstring" where
  "number_toString n =
     (if n < 10 then [48 + n] else number_toString (n div 10) @ [48 + n mod 10])"
  by pat_completeness auto
termination
  by (relation "measure id") auto

declare number_toString.simps [simp del]

section \<open>Data model\<close>

text \<open>
  The interfaces of the source. A field name that is taken in HOL, or that two interfaces
  share, carries a prefix. An optional field is an \<open>option\<close>. Coordinates are numbers of
  the editor's canvas.
\<close>

record AutoTemplate =
  template_id :: jsstring
  trigger :: "jsstring list"
  response :: jsstring
  active :: bool

datatype node_type = Start | Message | Condition | Options | Human | End

record node_data =
  title :: jsstring
  description :: "jsstring option"
  triggers :: "jsstring list option"
  data_response :: "jsstring option"
  conditions :: "(jsstring \<times> jsstring \<times> jsstring) list option"
  data_options :: "(jsstring \<times> jsstring \<times> jsstring) list option"
  data_active :: "bool option"

record FlowNode =
  node_id :: jsstring
  type :: node_type
  position :: "rat \<times> rat"
  data :: node_data
  node_connections :: "jsstring list"

record FlowConnection =
  conn_id :: jsstring
  source :: jsstring
  target :: jsstring
  sourceHandle :: "jsstring option"
  targetHandle :: "jsstring option"

datatype message_type = UserMessage | BotMessage

record ChatMessage =
  message_id :: jsstring
  message_type :: message_type
  content :: jsstring
  timestamp :: nat
  message_nodeId :: "jsstring option"

record SimulationState =
  isActive :: bool
  currentNodeId :: "jsstring option"
  chatHistory :: "ChatMessage list"
  awaitingInput :: bool

text \<open>
  What an operation of the editor reports to its user (the source does it with \<open>alert\<close>).
  \<open>InvalidState\<close> has no counterpart in the source: no operation produces it.
\<close>

datatype error = NoStartNode | InvalidState | InvalidFormat | StoreFailure

section \<open>Dialogue simulation\<close>

text \<open>The state the component starts with, and the one \<open>stopChatSimulation\<close> sets.\<close>

definition initialSimulationState :: SimulationState where
  "initialSimulationState =
     \<lparr>isActive = False, currentNodeId = None, chatHistory = [], awaitingInput = False\<rparr>"

definition welcomeText :: jsstring where
  "welcomeText = [55357, 56395] @ js '' Ol'' @ [225]
     @ js ''! Bem-vindo ao nosso atendimento. Como posso ajud'' @ [225] @ js ''-lo?''"

definition fallbackText :: jsstring where
  "fallbackText = [55358, 56596] @ js '' Desculpe, n'' @ [227] @ js ''o entendi sua mensagem. Voc''
     @ [234] @ js '' pode tentar novamente ou digitar '' @ [34] @ js ''menu'' @ [34]
     @ js '' para ver as op'' @ [231, 245] @ js ''es dispon'' @ [237] @ js ''veis.''"

definition simulatedName :: jsstring where
  "simulatedName = js ''Usu'' @ [225] @ js ''rio''"

text \<open>
  \<open>startChatSimulation\<close>: \<open>now\<close> is the reading of \<open>Date.now()\<close>. Without a start node the
  user is alerted and nothing changes.
\<close>

definition startChatSimulation ::
  "nat \<Rightarrow> FlowNode list \<Rightarrow> SimulationState \<Rightarrow> error option \<times> SimulationState" where
  "startChatSimulation now flowNodes s =
     (case find (\<lambda>node. type node = Start) flowNodes of
        None \<Rightarrow> (Some NoStartNode, s)
      | Some startNode \<Rightarrow>
          (None,
           \<lparr>isActive = True, currentNodeId = Some (node_id startNode),
            chatHistory = [\<lparr>message_id = number_toString now, message_type = BotMessage,
                            content = welcomeText, timestamp = now, message_nodeId = None\<rparr>],
            awaitingInput = True\<rparr>))"

definition stopChatSimulation :: "SimulationState \<Rightarrow> SimulationState" where
  "stopChatSimulation s = initialSimulationState"

text \<open>
  The test of \<open>sendUserMessage\<close> for one template: it is active and the lowercased input
  contains one of its lowercased triggers. The input is not trimmed here.

  The user may type any text, and the case tables of Unicode, with their rules that depend
  on the neighbours of a letter, are not modelled. The simulation therefore takes
  \<open>String.prototype.toLowerCase\<close> as its parameter \<open>toLower\<close>, a function from texts to
  texts, and everything proved about it holds for every such function, that of JavaScript
  included. The concrete runs below are on texts of Basic Latin, with \<open>toLowerCase\<close>.
\<close>

definition template_matches ::
  "(jsstring \<Rightarrow> jsstring) \<Rightarrow> jsstring \<Rightarrow> AutoTemplate \<Rightarrow> bool" where
  "template_matches toLower userInput template =
     (active template \<and>
      list_ex (\<lambda>trg. includes_str (toLower userInput) (toLower trg)) (trigger template))"

text \<open>
  \<open>sendUserMessage\<close> up to its return. It reads the input box and the simulation state;
  it gives back what it reports (nothing, always), the simulation state, the input box and
  the timer it has scheduled: \<open>Some m\<close> is the one-second timer whose callback has
  captured \<open>matchingTemplate = m\<close>, \<open>None\<close> is no timer.
\<close>

record send_result =
  report :: "error option"
  sim :: SimulationState
  input :: jsstring
  timer :: "AutoTemplate option option"

definition sendUserMessage ::
  "(jsstring \<Rightarrow> jsstring) \<Rightarrow> nat \<Rightarrow> AutoTemplate list \<Rightarrow> jsstring \<Rightarrow> SimulationState
     \<Rightarrow> send_result" where
  "sendUserMessage toLower now currentTemplates userInput s =
     (if trim userInput = [] \<or> \<not> isActive s
      then \<lparr>report = None, sim = s, input = userInput, timer = None\<rparr>
      else
        let userMessage = \<lparr>message_id = number_toString now, message_type = UserMessage,
                            content = trim userInput, timestamp = now, message_nodeId = None\<rparr>;
            matchingTemplate = find (template_matches toLower userInput) currentTemplates
        in \<lparr>report = None,
            sim = s\<lparr>chatHistory := chatHistory s @ [userMessage], awaitingInput := False\<rparr>,
            input = [],
            timer = Some matchingTemplate\<rparr>)"

text \<open>
  The callback of the timer, applied to the simulation state of the moment it fires;
  \<open>now\<close> is the reading of \<open>Date.now()\<close> then.
\<close>

definition timerFires :: "nat \<Rightarrow> AutoTemplate option \<Rightarrow> SimulationState \<Rightarrow> SimulationState" where
  "timerFires now matchingTemplate prev =
     (case matchingTemplate of
        Some t \<Rightarrow>
          prev\<lparr>chatHistory := chatHistory prev @
                  [\<lparr>message_id = number_toString (now + 1), message_type = BotMessage,
                    content = replaceAll (js ''{name}'') simulatedName (response t),
                    timestamp = now, message_nodeId = Some (template_id t)\<rparr>],
               awaitingInput := True,
               currentNodeId := Some (js ''template-'' @ template_id t)\<rparr>
      | None \<Rightarrow>
          prev\<lparr>chatHistory := chatHistory prev @
                  [\<lparr>message_id = number_toString (now + 1), message_type = BotMessage,
                    content = fallbackText, timestamp = now, message_nodeId = None\<rparr>],
               awaitingInput := True\<rparr>)"

text \<open>
  One whole turn: \<open>sendUserMessage\<close> at time \<open>now\<close>, then its timer, if it has set one,
  fires at time \<open>later\<close> with nothing in between.
\<close>

definition submitTurn ::
  "(jsstring \<Rightarrow> jsstring) \<Rightarrow> nat \<Rightarrow> nat \<Rightarrow> AutoTemplate list \<Rightarrow> jsstring \<Rightarrow> SimulationState
     \<Rightarrow> SimulationState" where
  "submitTurn toLower now later currentTemplates userInput s =
     (let r = sendUserMessage toLower now currentTemplates userInput s
      in case timer r of None \<Rightarrow> sim r | Some m \<Rightarrow> timerFires later m (sim r))"

section \<open>The graph of the editor\<close>

text \<open>
  The state of the flow editor. TypeScript's types are erased when the program runs, and
  the import stores in this state whatever objects the imported document holds; the state
  is therefore polymorphic in the type of its nodes and of its connections. The editing
  operations use it with \<open>FlowNode\<close> and \<open>FlowConnection\<close>.
\<close>

record ('n, 'c) FlowState =
  nodes :: "'n list"
  connections :: "'c list"
  selectedNode :: "jsstring option"
  draggedNode :: "jsstring option"
  isDragging :: bool
  zoom :: rat
  panOffset :: "rat \<times> rat"

type_synonym EditorState = "(FlowNode, FlowConnection) FlowState"

text \<open>
  The first state update of \<open>deleteFlowNode\<close>: the node goes, with every connection that
  starts or ends at it, and the selection if it was on that node.
\<close>

definition removeNode :: "jsstring \<Rightarrow> EditorState \<Rightarrow> EditorState" where
  "removeNode nodeId prev =
     prev\<lparr>nodes := filter (\<lambda>node. node_id node \<noteq> nodeId) (nodes prev),
          connections := filter (\<lambda>conn. source conn \<noteq> nodeId \<and> target conn \<noteq> nodeId)
                           (connections prev),
          selectedNode := (if selectedNode prev = Some nodeId then None else selectedNode prev)\<rparr>"

text \<open>
  The id of the template behind a node: what follows the prefix \<open>template-\<close>, else what
  follows the last hyphen, else the node id itself.
\<close>

definition templateIdOfNode :: "jsstring \<Rightarrow> jsstring" where
  "templateIdOfNode nodeId =
     (if prefix (js ''template-'') nodeId then replaceFirst (js ''template-'') [] nodeId
      else if 45 \<in> set nodeId then rev (takeWhile (\<lambda>c. c \<noteq> 45) (rev nodeId))
      else nodeId)"

text \<open>\<open>selectedProject && selectedProject !== 'default'\<close>, for a project id that may be null.\<close>

definition projectSelected :: "jsstring option \<Rightarrow> bool" where
  "projectSelected selectedProject =
     (case selectedProject of None \<Rightarrow> False | Some p \<Rightarrow> p \<noteq> [] \<and> p \<noteq> js ''default'')"

text \<open>
  \<open>deleteFlowNode\<close> is asynchronous. Its first part runs up to the call of the Template
  Store: it gives the state of the editor at that moment and, when the store is called,
  the template id sent and the node kept for the rollback. \<open>positiveNumber\<close> stands for
  the test \<open>!isNaN(Number(s)) && Number(s) > 0\<close> of JavaScript, whose conversion of
  texts to floating-point numbers is not modelled.
\<close>

definition deleteFlowNode ::
  "(jsstring \<Rightarrow> bool) \<Rightarrow> jsstring option \<Rightarrow> jsstring \<Rightarrow> EditorState
     \<Rightarrow> EditorState \<times> (jsstring \<times> FlowNode) option" where
  "deleteFlowNode positiveNumber selectedProject nodeId flowState =
     (case find (\<lambda>node. node_id node = nodeId) (nodes flowState) of
        None \<Rightarrow> (flowState, None)
      | Some nodeToDelete \<Rightarrow>
          (removeNode nodeId flowState,
           if projectSelected selectedProject \<and> positiveNumber (templateIdOfNode nodeId)
           then Some (templateIdOfNode nodeId, nodeToDelete) else None))"

text \<open>
  Its second part runs when the store has answered, on the state of the editor of that
  moment: nothing more on success; on failure the user is alerted and the node is put
  back, at the end of the node list.
\<close>

definition deleteFlowNode_resume ::
  "bool \<Rightarrow> FlowNode \<Rightarrow> EditorState \<Rightarrow> error option \<times> EditorState" where
  "deleteFlowNode_resume storeSucceeded nodeToDelete prev =
     (if storeSucceeded then (None, prev)
      else (Some StoreFailure, prev\<lparr>nodes := nodes prev @ [nodeToDelete]\<rparr>))"

text \<open>
  A test that is sufficient for \<open>!isNaN(Number(s)) && Number(s) > 0\<close>: the text is a
  plain decimal numeral, not empty, with a digit that is not zero. It is not necessary
  (JavaScript also reads \<open>5.5\<close>, \<open>+5\<close>, \<open>1e3\<close>, \<open>0x10\<close> and a numeral between blanks as
  positive numbers). Nothing is proved from this definition: \<open>deleteFlowNode\<close> takes the
  test of JavaScript as its parameter \<open>positiveNumber\<close>, and this one stands for it in the
  concrete run, on the template id \<open>5\<close>.
\<close>

definition decimalPositive :: "jsstring \<Rightarrow> bool" where
  "decimalPositive s = (s \<noteq> [] \<and> list_all (\<lambda>c. 48 \<le> c \<and> c \<le> 57) s \<and> list_ex (\<lambda>c. c \<noteq> 48) s)"

section \<open>Import of a flow document\<close>

text \<open>
  The values \<open>JSON.parse\<close> produces. A number is finite or, for a numeral beyond the
  range of doubles, infinite. An object is the list of its properties, each name once.
\<close>

datatype jsnumber = Finite rat | PlusInfinity | MinusInfinity

datatype json =
  JNull | JBool bool | JNumber jsnumber | JString jsstring | JArray "json list"
  | JObject "(jsstring \<times> json) list"

text \<open>
  Reading a property that none of the prototypes has (all the names read below are such):
  \<open>None\<close> is \<open>undefined\<close>. Reading a property of \<open>null\<close> throws, which the callers
  below test first.
\<close>

fun property :: "json \<Rightarrow> jsstring \<Rightarrow> json option" where
  "property (JObject props) name = map_of props name"
| "property v name = None"

text \<open>Truthiness, of a value that may be \<open>undefined\<close>.\<close>

fun truthy :: "json option \<Rightarrow> bool" where
  "truthy None = False"
| "truthy (Some JNull) = False"
| "truthy (Some (JBool b)) = b"
| "truthy (Some (JNumber n)) = (n \<noteq> Finite 0)"
| "truthy (Some (JString s)) = (s \<noteq> [])"
| "truthy (Some (JArray xs)) = True"
| "truthy (Some (JObject props)) = True"

text \<open>\<open>a || b\<close> where \<open>b\<close> is a value.\<close>

definition orElse :: "json option \<Rightarrow> json \<Rightarrow> json" where
  "orElse a b = (if truthy a then the a else b)"

text \<open>The objects the import builds; their fields hold what the document holds.\<close>

record ImportedNode =
  imp_id :: json
  imp_type :: json
  imp_position :: json
  imp_data :: json
  imp_connections :: json

record ImportedConnection =
  imp_conn_id :: json
  imp_source :: "json option"
  imp_target :: "json option"
  imp_sourceHandle :: "json option"
  imp_targetHandle :: "json option"

definition importNode :: "nat \<Rightarrow> json \<Rightarrow> ImportedNode" where
  "importNode now node =
     \<lparr>imp_id = orElse (property node (js ''id'')) (JString (js ''node-'' @ number_toString now)),
      imp_type = orElse (property node (js ''type'')) (JString (js ''message'')),
      imp_position = orElse (property node (js ''position''))
                       (JObject [(js ''x'', JNumber (Finite 0)), (js ''y'', JNumber (Finite 0))]),
      imp_data = orElse (property node (js ''data''))
                   (JObject [(js ''title'', JString (js ''Novo N'' @ [243]))]),
      imp_connections = orElse (property node (js ''connections'')) (JArray [])\<rparr>"

definition importConnection :: "nat \<Rightarrow> json \<Rightarrow> ImportedConnection" where
  "importConnection now conn =
     \<lparr>imp_conn_id = orElse (property conn (js ''id'')) (JString (js ''conn-'' @ number_toString now)),
      imp_source = property conn (js ''source''),
      imp_target = property conn (js ''target''),
      imp_sourceHandle = property conn (js ''sourceHandle''),
      imp_targetHandle = property conn (js ''targetHandle'')\<rparr>"

text \<open>
  \<open>convertCodeToFlow\<close>, from the result of \<open>JSON.parse\<close> on (\<open>None\<close> when it throws).
  Every exception inside is caught and turned into \<open>null\<close>, here \<open>None\<close>: the two
  \<open>throw\<close> of the checks, and the TypeError of reading a property of \<open>null\<close>, be it the
  document or one of the array elements.
\<close>

definition isArray :: "json option \<Rightarrow> bool" where
  "isArray v = (case v of Some (JArray xs) \<Rightarrow> True | _ \<Rightarrow> False)"

definition elements :: "json option \<Rightarrow> json list" where
  "elements v = (case v of Some (JArray xs) \<Rightarrow> xs | _ \<Rightarrow> [])"

definition convertCodeToFlow ::
  "nat \<Rightarrow> json option \<Rightarrow> (ImportedNode list \<times> ImportedConnection list) option" where
  "convertCodeToFlow now parsed =
     (case parsed of
        None \<Rightarrow> None
      | Some flowData \<Rightarrow>
          if flowData = JNull then None
          else if \<not> truthy (property flowData (js ''nodes''))
                  \<or> \<not> isArray (property flowData (js ''nodes'')) then None
          else if \<not> truthy (property flowData (js ''connections''))
                  \<or> \<not> isArray (property flowData (js ''connections'')) then None
          else if JNull \<in> set (elements (property flowData (js ''nodes''))) then None
          else if JNull \<in> set (elements (property flowData (js ''connections''))) then None
          else Some (map (importNode now) (elements (property flowData (js ''nodes''))),
                     map (importConnection now)
                       (elements (property flowData (js ''connections'')))))"

text \<open>
  \<open>importFlowCode\<close>, once the file is read: the graph of the document replaces the
  current one, or the user is told that the import has failed.
\<close>

definition importFlowCode ::
  "nat \<Rightarrow> json option \<Rightarrow> (ImportedNode, ImportedConnection) FlowState
     \<Rightarrow> error option \<times> (ImportedNode, ImportedConnection) FlowState" where
  "importFlowCode now parsed prev =
     (case convertCodeToFlow now parsed of
        Some (ns, cs) \<Rightarrow> (None, prev\<lparr>nodes := ns, connections := cs\<rparr>)
      | None \<Rightarrow> (Some InvalidFormat, prev))"

section \<open>Synthesis of a graph from the templates\<close>

text \<open>The vocabularies of \<open>convertTemplatesToFlow\<close> and its tests on one template.\<close>

definition greetingWords :: "jsstring list" where
  "greetingWords =
     [js ''oi'', js ''ol'' @ [225], js ''menu'', js ''dia'', js ''tarde'', js ''noite'',
      js ''bom dia'', js ''boa tarde'', js ''boa noite'']"

definition menuDigits :: "jsstring list" where
  "menuDigits = [js ''1'', js ''2'', js ''3'', js ''4'', js ''5'']"

definition isGreeting :: "AutoTemplate \<Rightarrow> bool" where
  "isGreeting tpl = list_ex (\<lambda>t. toLowerCase t \<in> set greetingWords) (trigger tpl)"

definition isMenuOption :: "AutoTemplate \<Rightarrow> bool" where
  "isMenuOption tpl =
     (list_ex (\<lambda>t. t \<in> set menuDigits) (trigger tpl) \<and> \<not> isGreeting tpl)"

text \<open>
  \<open>parseInt\<close> on a text of decimal digits; it is applied to one of \<open>'0'\<close> to \<open>'5'\<close> only.
\<close>

definition parseInt :: "jsstring \<Rightarrow> int" where
  "parseInt s = foldl (\<lambda>a c. 10 * a + (int c - 48)) 0 s"

text \<open>The key of the sort of the menu options: the first trigger that is a menu digit.\<close>

definition menuNumber :: "AutoTemplate \<Rightarrow> int" where
  "menuNumber tpl =
     parseInt (case find (\<lambda>t. t \<in> set menuDigits) (trigger tpl) of
                 Some d \<Rightarrow> d | None \<Rightarrow> js ''0'')"

definition isSpecial :: "AutoTemplate \<Rightarrow> bool" where
  "isSpecial tpl =
     list_ex (\<lambda>t. includes_str t (js ''CIDADE_'') \<or> includes_str t (js ''_DISPONIVEL'')
                \<or> includes_str t (js ''_NAO_DISPONIVEL'')) (trigger tpl)"

definition isComprarOption :: "AutoTemplate \<Rightarrow> bool" where
  "isComprarOption opt =
     list_ex (\<lambda>t. toLowerCase t \<in> set [js ''comprar'', js ''passagem'', js ''1'']) (trigger opt)"

definition isHumanOption :: "AutoTemplate \<Rightarrow> bool" where
  "isHumanOption tpl =
     list_ex (\<lambda>t. toLowerCase t \<in>
                set [js ''3'', js ''operador'', js ''atendente'', js ''humano'', js ''pessoa''])
       (trigger tpl)"

text \<open>The node id of a template, and a connection between two node ids.\<close>

definition templateNodeId :: "AutoTemplate \<Rightarrow> jsstring" where
  "templateNodeId tpl = js ''template-'' @ template_id tpl"

definition connect :: "jsstring \<Rightarrow> jsstring \<Rightarrow> FlowConnection" where
  "connect s t =
     \<lparr>conn_id = s @ js ''-'' @ t, source = s, target = t,
      sourceHandle = None, targetHandle = None\<rparr>"

text \<open>The nodes as they are built, before any of them is changed.\<close>

definition startNode :: FlowNode where
  "startNode =
     \<lparr>node_id = js ''start-1'', type = Start, position = (50, 50),
      data = \<lparr>title = js ''In'' @ [237] @ js ''cio'',
              description = Some (js ''Usu'' @ [225] @ js ''rio inicia conversa''),
              triggers = None, data_response = None, conditions = None,
              data_options = None, data_active = None\<rparr>,
      node_connections = []\<rparr>"

definition endNode :: FlowNode where
  "endNode =
     \<lparr>node_id = js ''end-1'', type = End, position = (650, 250),
      data = \<lparr>title = js ''Fim'', description = Some (js ''Conversa finalizada''),
              triggers = None, data_response = None, conditions = None,
              data_options = None, data_active = None\<rparr>,
      node_connections = []\<rparr>"

definition templateData :: "jsstring \<Rightarrow> AutoTemplate \<Rightarrow> node_data" where
  "templateData t tpl =
     \<lparr>title = t, description = None, triggers = Some (trigger tpl),
      data_response = Some (response tpl), conditions = None, data_options = None,
      data_active = Some (active tpl)\<rparr>"

definition welcomeNode :: "AutoTemplate \<Rightarrow> FlowNode" where
  "welcomeNode welcomeTpl =
     \<lparr>node_id = templateNodeId welcomeTpl, type = Message, position = (50, 150),
      data = templateData (js ''Boas-vindas'') welcomeTpl, node_connections = []\<rparr>"

definition optionTitle :: "AutoTemplate \<Rightarrow> jsstring" where
  "optionTitle opt =
     (let optionNumber = (case find (\<lambda>t. t \<in> set menuDigits) (trigger opt) of
                            Some d \<Rightarrow> d | None \<Rightarrow> js ''undefined'');
          base = js ''Op'' @ [231, 227] @ js ''o '' @ optionNumber
      in if list_ex (\<lambda>t. toLowerCase t \<in> set [js ''comprar'', js ''passagem'', js ''bilhete''])
              (trigger opt)
         then base @ js '' - Comprar Passagem''
         else if list_ex (\<lambda>t. toLowerCase t \<in>
                            set [js ''hor'' @ [225] @ js ''rios'', js ''horario'', js ''hora''])
                   (trigger opt)
         then base @ js '' - Ver Hor'' @ [225] @ js ''rios''
         else if list_ex (\<lambda>t. toLowerCase t \<in>
                            set [js ''operador'', js ''atendente'', js ''humano'', js ''pessoa''])
                   (trigger opt)
         then base @ js '' - Falar com Operador''
         else base)"

definition optionNode :: "nat \<Rightarrow> AutoTemplate \<Rightarrow> FlowNode" where
  "optionNode index opt =
     \<lparr>node_id = templateNodeId opt, type = Message,
      position = (300 + of_nat (index mod 3) * 200, 100 + of_nat (index div 3) * 120),
      data = templateData (optionTitle opt) opt, node_connections = []\<rparr>"

definition specialTitle :: "AutoTemplate \<Rightarrow> jsstring" where
  "specialTitle tpl =
     (if list_ex (\<lambda>t. includes_str t (js ''CIDADE_DISPONIVEL'')) (trigger tpl)
      then js ''Cidade Dispon'' @ [237] @ js ''vel''
      else if list_ex (\<lambda>t. includes_str t (js ''CIDADE_NAO_DISPONIVEL'')) (trigger tpl)
      then js ''Cidade N'' @ [227] @ js ''o Dispon'' @ [237] @ js ''vel''
      else js ''Template Especial'')"

definition specialNode :: "nat \<Rightarrow> AutoTemplate \<Rightarrow> FlowNode" where
  "specialNode index tpl =
     \<lparr>node_id = templateNodeId tpl, type = Condition,
      position = (50 + of_nat index * 250, 400),
      data = templateData (specialTitle tpl) tpl, node_connections = []\<rparr>"

text \<open>
  The nodes are objects that the function changes after it has put them into the array.
  \<open>pushConnection\<close> is \<open>node.connections.push(t)\<close>; it is applied to the node at a known
  place of the array (the start node at 0 and the welcome node at 1), or to the first node
  of a given id, which is what \<open>nodes.find\<close> yields (and nothing when there is none).
\<close>

definition pushConnection :: "jsstring \<Rightarrow> FlowNode \<Rightarrow> FlowNode" where
  "pushConnection t node = node\<lparr>node_connections := node_connections node @ [t]\<rparr>"

fun changeFirst :: "jsstring \<Rightarrow> (FlowNode \<Rightarrow> FlowNode) \<Rightarrow> FlowNode list \<Rightarrow> FlowNode list" where
  "changeFirst nid f [] = []"
| "changeFirst nid f (node # rest) =
     (if node_id node = nid then f node # rest else node # changeFirst nid f rest)"

text \<open>
  The loop over the menu options, from index \<open>index\<close> on. \<open>welcome\<close> tells whether
  there is a welcome node (then it is the node at place 1) and gives its id.
\<close>

fun addOptionNodes ::
  "jsstring option \<Rightarrow> nat \<Rightarrow> AutoTemplate list \<Rightarrow> FlowNode list \<times> FlowConnection list
     \<Rightarrow> FlowNode list \<times> FlowConnection list" where
  "addOptionNodes welcome index [] g = g"
| "addOptionNodes welcome index (opt # rest) (ns, cs) =
     addOptionNodes welcome (Suc index) rest
       (case welcome of
          None \<Rightarrow> (ns @ [optionNode index opt], cs)
        | Some welcomeId \<Rightarrow>
            ((ns @ [optionNode index opt])
               [1 := pushConnection (templateNodeId opt) ((ns @ [optionNode index opt]) ! 1)],
             cs @ [connect welcomeId (templateNodeId opt)]))"

text \<open>The loop over the special templates.\<close>

fun addSpecialNodes ::
  "AutoTemplate list \<Rightarrow> nat \<Rightarrow> AutoTemplate list \<Rightarrow> FlowNode list \<times> FlowConnection list
     \<Rightarrow> FlowNode list \<times> FlowConnection list" where
  "addSpecialNodes menuOptions index [] g = g"
| "addSpecialNodes menuOptions index (tpl # rest) (ns, cs) =
     addSpecialNodes menuOptions (Suc index) rest
       (case find isComprarOption menuOptions of
          None \<Rightarrow> (ns @ [specialNode index tpl], cs)
        | Some comprarOption \<Rightarrow>
            (changeFirst (templateNodeId comprarOption) (pushConnection (templateNodeId tpl))
               (ns @ [specialNode index tpl]),
             cs @ [connect (templateNodeId comprarOption) (templateNodeId tpl)]))"

text \<open>The first node of the id of the human option becomes the human node.\<close>

definition makeHuman :: "FlowNode \<Rightarrow> FlowNode" where
  "makeHuman node =
     node\<lparr>type := Human, data := (data node)\<lparr>title := js ''Atendimento Humano''\<rparr>,
          position := (50, 300)\<rparr>"

text \<open>The last loop: every leaf but the start, the end and a human node goes to the end.\<close>

definition isLeaf :: "FlowNode \<Rightarrow> bool" where
  "isLeaf node =
     (node_connections node = [] \<and> node_id node \<noteq> node_id endNode
      \<and> node_id node \<noteq> node_id startNode \<and> type node \<noteq> Human)"

definition connectLeaves ::
  "FlowNode list \<times> FlowConnection list \<Rightarrow> FlowNode list \<times> FlowConnection list" where
  "connectLeaves g =
     (map (\<lambda>node. if isLeaf node then pushConnection (node_id endNode) node else node) (fst g),
      snd g @ map (\<lambda>node. connect (node_id node) (node_id endNode)) (filter isLeaf (fst g)))"

definition menuOptionsOf :: "AutoTemplate list \<Rightarrow> AutoTemplate list" where
  "menuOptionsOf templates = sort_key menuNumber (filter isMenuOption templates)"

text \<open>\<open>convertTemplatesToFlow\<close> up to its last loop, the end node included.\<close>

definition flowBeforeLeaves ::
  "AutoTemplate list \<Rightarrow> FlowNode list \<times> FlowConnection list" where
  "flowBeforeLeaves templates =
     (let welcomeTpl = find isGreeting templates;
          g1 = (case welcomeTpl of
                  None \<Rightarrow> ([startNode], [])
                | Some w \<Rightarrow>
                    ([pushConnection (templateNodeId w) startNode, welcomeNode w],
                     [connect (node_id startNode) (templateNodeId w)]));
          menuOptions = menuOptionsOf templates;
          g2 = addOptionNodes (map_option templateNodeId welcomeTpl) 0 menuOptions g1;
          specialTemplates = filter isSpecial templates;
          g3 = addSpecialNodes menuOptions 0 specialTemplates g2;
          g4 = (case find isHumanOption menuOptions of
                  None \<Rightarrow> g3
                | Some humanTpl \<Rightarrow> (changeFirst (templateNodeId humanTpl) makeHuman (fst g3), snd g3))
      in (fst g4 @ [endNode], snd g4))"

definition convertTemplatesToFlow ::
  "AutoTemplate list \<Rightarrow> FlowNode list \<times> FlowConnection list" where
  "convertTemplatesToFlow templates = connectLeaves (flowBeforeLeaves templates)"

section \<open>Reconciliation of the graph with the Template Store\<close>

record TemplateProject =
  project_id :: jsstring
  project_name :: jsstring
  project_description :: jsstring
  project_templates :: "AutoTemplate list"
  createdAt :: jsstring
  project_isActive :: bool
  isDefault :: "bool option"

text \<open>
  The head of \<open>convertFlowNodesToTemplates\<close>: the project to use, or \<open>None\<close> when the
  user is told that there is none and the function returns.
\<close>

definition projectToUse :: "jsstring option \<Rightarrow> TemplateProject list \<Rightarrow> jsstring option" where
  "projectToUse selectedProject templateProjects =
     (let chosen =
            (if projectSelected selectedProject then selectedProject
             else map_option project_id (find (\<lambda>p. project_templates p \<noteq> []) templateProjects))
      in case chosen of
           None \<Rightarrow> None
         | Some c \<Rightarrow>
             (case find (\<lambda>p. project_id p = c) templateProjects of
                Some p \<Rightarrow> Some c
              | None \<Rightarrow> (case templateProjects of [] \<Rightarrow> None | p # ps \<Rightarrow> Some (project_id p))))"

definition existingTemplatesOf :: "jsstring \<Rightarrow> TemplateProject list \<Rightarrow> AutoTemplate list" where
  "existingTemplatesOf c templateProjects =
     (case find (\<lambda>p. project_id p = c) templateProjects of
        Some p \<Rightarrow> project_templates p | None \<Rightarrow> [])"

text \<open>
  The Template Store is outside the program. It is a state \<open>'w\<close> with the two calls the
  reconciliation makes: the update says whether it succeeded, the creation fails or gives
  the id of the new record (or none, when the answer carries no id).
\<close>

datatype create_result = CreateFailed | Created "jsstring option"

record 'w store =
  updateAutoTemplateInDatabase :: "AutoTemplate \<Rightarrow> 'w \<Rightarrow> bool \<times> 'w"
  createAutoTemplateInDatabase :: "AutoTemplate \<Rightarrow> jsstring option \<Rightarrow> 'w \<Rightarrow> create_result \<times> 'w"

datatype store_request = UpdateRequest AutoTemplate | CreateRequest AutoTemplate

fun requestTemplate :: "store_request \<Rightarrow> AutoTemplate" where
  "requestTemplate (UpdateRequest t) = t"
| "requestTemplate (CreateRequest t) = t"

text \<open>
  The variables of the loop, with the calls made to the store so far, the failures told to
  the user, and the state of the store.
\<close>

record 'w reconciliation =
  newTemplates :: "AutoTemplate list"
  updatedTemplates :: "AutoTemplate list"
  orderIndex :: nat
  requests :: "store_request list"
  reported :: "error list"
  world :: 'w

text \<open>
  The search for the persisted template of a node: the first template of the list whose id
  is the node id without its first \<open>template-\<close>, or that shares a trigger with the node.
\<close>

definition matchesNode :: "FlowNode \<Rightarrow> AutoTemplate \<Rightarrow> bool" where
  "matchesNode node t =
     (template_id t = replaceFirst (js ''template-'') [] (node_id node)
      \<or> (case triggers (data node) of
            None \<Rightarrow> False
          | Some nodeTriggers \<Rightarrow> list_ex (\<lambda>trg. trg \<in> set (trigger t)) nodeTriggers))"

text \<open>
  The template sent for a node: \<open>a || b\<close> takes \<open>b\<close> when \<open>a\<close> is undefined or, for a
  text, empty; an array is never replaced; \<open>active\<close> is true unless the node says false.
\<close>

definition nodeResponse :: "FlowNode \<Rightarrow> jsstring \<Rightarrow> jsstring" where
  "nodeResponse node fallback =
     (case data_response (data node) of
        Some r \<Rightarrow> if r \<noteq> [] then r else if title (data node) \<noteq> [] then title (data node) else fallback
      | None \<Rightarrow> if title (data node) \<noteq> [] then title (data node) else fallback)"

definition updatedTemplateOf :: "AutoTemplate \<Rightarrow> FlowNode \<Rightarrow> AutoTemplate" where
  "updatedTemplateOf existingTemplate node =
     existingTemplate
       \<lparr>trigger := (case triggers (data node) of Some ts \<Rightarrow> ts | None \<Rightarrow> trigger existingTemplate),
        response := nodeResponse node (response existingTemplate),
        active := (data_active (data node) \<noteq> Some False)\<rparr>"

definition temporaryId :: "nat \<Rightarrow> nat \<Rightarrow> jsstring" where
  "temporaryId now k = js ''temp-'' @ number_toString now @ js ''-'' @ number_toString k"

definition newTemplateOf :: "nat \<Rightarrow> nat \<Rightarrow> FlowNode \<Rightarrow> AutoTemplate" where
  "newTemplateOf now k node =
     \<lparr>template_id = temporaryId now k,
      trigger = (case triggers (data node) of Some ts \<Rightarrow> ts | None \<Rightarrow> [js ''default'']),
      response = nodeResponse node (js ''Resposta padr'' @ [227] @ js ''o''),
      active = (data_active (data node) \<noteq> Some False)\<rparr>"

text \<open>
  The body of the loop for one node; \<open>now\<close> is the reading of the clock (one reading for
  the whole run: it only enters the temporary ids).
\<close>

definition reconcileNode ::
  "'w store \<Rightarrow> nat \<Rightarrow> AutoTemplate list \<Rightarrow> jsstring option \<Rightarrow> FlowNode
     \<Rightarrow> 'w reconciliation \<Rightarrow> 'w reconciliation" where
  "reconcileNode st now existingTemplates project node r =
     (if type node = Message \<or> type node = Human then
        (case find (matchesNode node) existingTemplates of
           Some existingTemplate \<Rightarrow>
             (let updatedTemplate = updatedTemplateOf existingTemplate node;
                  answer = updateAutoTemplateInDatabase st updatedTemplate (world r)
              in r\<lparr>updatedTemplates :=
                      (if fst answer then updatedTemplates r @ [updatedTemplate]
                       else updatedTemplates r),
                    requests := requests r @ [UpdateRequest updatedTemplate],
                    world := snd answer\<rparr>)
         | None \<Rightarrow>
             (let template = newTemplateOf now (orderIndex r) node;
                  answer = createAutoTemplateInDatabase st template project (world r)
              in case fst answer of
                   CreateFailed \<Rightarrow>
                     r\<lparr>requests := requests r @ [CreateRequest template],
                       reported := reported r @ [StoreFailure],
                       world := snd answer\<rparr>
                 | Created newId \<Rightarrow>
                     r\<lparr>newTemplates := newTemplates r @
                          [template\<lparr>template_id :=
                             (case newId of Some i \<Rightarrow> i
                              | None \<Rightarrow> temporaryId now (orderIndex r))\<rparr>],
                       orderIndex := Suc (orderIndex r),
                       requests := requests r @ [CreateRequest template],
                       world := snd answer\<rparr>))
      else r)"

definition reconcileNodes ::
  "'w store \<Rightarrow> nat \<Rightarrow> AutoTemplate list \<Rightarrow> jsstring option \<Rightarrow> FlowNode list
     \<Rightarrow> 'w reconciliation \<Rightarrow> 'w reconciliation" where
  "reconcileNodes st now existingTemplates project flowNodes r =
     fold (reconcileNode st now existingTemplates project) flowNodes r"

text \<open>
  \<open>convertFlowNodesToTemplates\<close> up to the reload of the templates: \<open>None\<close> when no
  project is found, else the loop from its initial variables.
\<close>

definition convertFlowNodesToTemplates ::
  "'w store \<Rightarrow> nat \<Rightarrow> jsstring option \<Rightarrow> TemplateProject list \<Rightarrow> FlowNode list \<Rightarrow> 'w
     \<Rightarrow> 'w reconciliation option" where
  "convertFlowNodesToTemplates st now selectedProject templateProjects flowNodes w =
     (case projectToUse selectedProject templateProjects of
        None \<Rightarrow> None
      | Some c \<Rightarrow>
          Some (reconcileNodes st now (existingTemplatesOf c templateProjects)
                  (if c = [] then None else Some c) flowNodes
                  \<lparr>newTemplates = [], updatedTemplates = [], orderIndex = 0, requests = [],
                   reported = [], world = w\<rparr>))"

text \<open>
  Flattening: the templates that the reconciliation of a node list hands to the store, in
  the order of the nodes.
\<close>

definition flattenedTemplates :: "'w reconciliation \<Rightarrow> AutoTemplate list" where
  "flattenedTemplates r = map requestTemplate (requests r)"

section \<open>Views of nodes and templates used in the statements\<close>

text \<open>
  The (triggers, response, active) of a node and of a template; the fields of a node are
  optional, those of a template are not.
\<close>

type_synonym reply_tuple = "jsstring list option \<times> jsstring option \<times> bool option"

definition nodeTuple :: "FlowNode \<Rightarrow> reply_tuple" where
  "nodeTuple node = (triggers (data node), data_response (data node), data_active (data node))"

definition templateTuple :: "AutoTemplate \<Rightarrow> reply_tuple" where
  "templateTuple t = (Some (trigger t), Some (response t), Some (active t))"

definition isMessageOrHuman :: "FlowNode \<Rightarrow> bool" where
  "isMessageOrHuman node = (type node = Message \<or> type node = Human)"

text \<open>The tuples of the message and human nodes of a graph, in the order of the nodes.\<close>

definition replyTuples :: "FlowNode list \<times> FlowConnection list \<Rightarrow> reply_tuple list" where
  "replyTuples g = map nodeTuple (filter isMessageOrHuman (fst g))"

text \<open>A node without its outgoing ids, which the synthesis fills in late.\<close>

definition core :: "FlowNode \<Rightarrow> FlowNode" where
  "core node = node\<lparr>node_connections := []\<rparr>"

text \<open>The option nodes and the special nodes as they are built, from an index on.\<close>

fun optionNodesFrom :: "nat \<Rightarrow> AutoTemplate list \<Rightarrow> FlowNode list" where
  "optionNodesFrom index [] = []"
| "optionNodesFrom index (opt # rest) = optionNode index opt # optionNodesFrom (Suc index) rest"

fun specialNodesFrom :: "nat \<Rightarrow> AutoTemplate list \<Rightarrow> FlowNode list" where
  "specialNodesFrom index [] = []"
| "specialNodesFrom index (tpl # rest) = specialNode index tpl # specialNodesFrom (Suc index) rest"

text \<open>The welcome template as a list of at most one template.\<close>

definition welcomeOf :: "AutoTemplate list \<Rightarrow> AutoTemplate list" where
  "welcomeOf templates = (case find isGreeting templates of None \<Rightarrow> [] | Some w \<Rightarrow> [w])"

section \<open>Concrete inputs\<close>

definition awaitingState :: SimulationState where
  "awaitingState =
     \<lparr>isActive = True, currentNodeId = None, chatHistory = [], awaitingInput = True\<rparr>"

definition startedState :: SimulationState where
  "startedState = snd (startChatSimulation 0 [startNode] initialSimulationState)"


definition oiTemplate :: AutoTemplate where
  "oiTemplate =
     \<lparr>template_id = js ''1'', trigger = [js ''oi''], response = js ''Hi {name}'', active = True\<rparr>"

definition mutedOiTemplate :: AutoTemplate where
  "mutedOiTemplate =
     \<lparr>template_id = js ''7'', trigger = [js ''oi''], response = js ''Muted'', active = False\<rparr>"

definition menuTemplate :: AutoTemplate where
  "menuTemplate =
     \<lparr>template_id = js ''8'', trigger = [js ''menu''], response = js ''Menu'', active = True\<rparr>"

definition laterTemplate :: AutoTemplate where
  "laterTemplate =
     \<lparr>template_id = js ''9'', trigger = [js ''o''], response = js ''Later'', active = True\<rparr>"

definition emptyTriggerTemplate :: AutoTemplate where
  "emptyTriggerTemplate =
     \<lparr>template_id = js ''2'', trigger = [[]], response = js ''Hi'', active = True\<rparr>"

definition plainData :: "jsstring \<Rightarrow> node_data" where
  "plainData t =
     \<lparr>title = t, description = None, triggers = None, data_response = None,
      conditions = None, data_options = None, data_active = None\<rparr>"

definition nodeS :: FlowNode where
  "nodeS = \<lparr>node_id = js ''start-1'', type = Start, position = (50, 50),
            data = plainData (js ''S''), node_connections = [js ''template-5'', js ''template-6'']\<rparr>"

definition nodeA :: FlowNode where
  "nodeA = \<lparr>node_id = js ''template-5'', type = Message, position = (50, 150),
            data = plainData (js ''A''), node_connections = [js ''template-6'']\<rparr>"

definition nodeB :: FlowNode where
  "nodeB = \<lparr>node_id = js ''template-6'', type = Message, position = (300, 100),
            data = plainData (js ''B''), node_connections = []\<rparr>"

definition edge :: "jsstring \<Rightarrow> jsstring \<Rightarrow> FlowConnection" where
  "edge s t = \<lparr>conn_id = s @ js ''-'' @ t, source = s, target = t,
               sourceHandle = None, targetHandle = None\<rparr>"

definition exampleEditor :: EditorState where
  "exampleEditor =
     \<lparr>nodes = [nodeS, nodeA, nodeB],
      connections = [edge (js ''start-1'') (js ''template-5''),
                     edge (js ''template-5'') (js ''template-6''),
                     edge (js ''start-1'') (js ''template-6'')],
      selectedNode = Some (js ''template-5''), draggedNode = None, isDragging = False,
      zoom = 1, panOffset = (0, 0)\<rparr>"

definition notAnArrayDocument :: json where
  "notAnArrayDocument =
     JObject [(js ''nodes'', JString (js ''not-an-array'')), (js ''connections'', JArray [])]"

definition emptyImportState :: "(ImportedNode, ImportedConnection) FlowState" where
  "emptyImportState =
     \<lparr>nodes = [importNode 7 (JObject [(js ''id'', JString (js ''start-1''))])],
      connections = [], selectedNode = None, draggedNode = None, isDragging = False,
      zoom = 1, panOffset = (0, 0)\<rparr>"

definition tplWelcome :: AutoTemplate where
  "tplWelcome = \<lparr>template_id = js ''10'', trigger = [js ''Oi'', js ''menu''],
           response = js ''Welcome'', active = True\<rparr>"

definition tplOption1 :: AutoTemplate where
  "tplOption1 = \<lparr>template_id = js ''11'', trigger = [js ''1'', js ''comprar''],
          response = js ''Buy'', active = True\<rparr>"

definition tplOption3 :: AutoTemplate where
  "tplOption3 = \<lparr>template_id = js ''13'', trigger = [js ''3''],
          response = js ''Human'', active = False\<rparr>"

definition tplOption2 :: AutoTemplate where
  "tplOption2 = \<lparr>template_id = js ''12'', trigger = [js ''2''],
          response = js ''Two'', active = True\<rparr>"

definition humanNodeOf3 :: FlowNode where
  "humanNodeOf3 =
     \<lparr>node_id = js ''template-13'', type = Human, position = (50, 300),
      data = \<lparr>title = js ''Atendimento Humano'', description = None,
              triggers = Some [js ''3''], data_response = Some (js ''Human''),
              conditions = None, data_options = None, data_active = Some False\<rparr>,
      node_connections = []\<rparr>"

definition acceptingStore :: "unit store" where
  "acceptingStore =
     \<lparr>updateAutoTemplateInDatabase = (\<lambda>t w. (True, w)),
      createAutoTemplateInDatabase = (\<lambda>t p w. (Created None, w))\<rparr>"

definition noRequests :: "unit reconciliation" where
  "noRequests =
     \<lparr>newTemplates = [], updatedTemplates = [], orderIndex = 0, requests = [],
      reported = [], world = ()\<rparr>"







definition blankWelcome :: AutoTemplate where
  "blankWelcome =
     \<lparr>template_id = js ''10'', trigger = [js ''oi''], response = [], active = True\<rparr>"

section \<open>Facts about the string functions\<close>

lemma sublist_append_skip:
  assumes "p \<noteq> []" "hd p \<notin> set r" "sublist p (r @ t)"
  shows "sublist p t"
  using assms
proof (induction r)
  case Nil
  then show ?case by simp
next
  case (Cons a r)
  then show ?case
    by (cases p) (auto simp: sublist_Cons_right)
qed

lemma prefix_replaceAll_back:
  assumes "r \<noteq> []" "hd r \<notin> set q" "prefix q (replaceAll p r s)"
  shows "prefix q s"
  using assms
proof (induction s arbitrary: q)
  case Nil
  then show ?case by simp
next
  case (Cons c cs)
  show ?case
  proof (cases q)
    case Nil
    then show ?thesis by simp
  next
    case (Cons q0 qs)
    show ?thesis
    proof (cases "p \<noteq> [] \<and> prefix p (c # cs)")
      case True
      with Cons.prems Cons show ?thesis
        by (cases r) auto
    next
      case False
      with Cons.prems Cons Cons.IH[of qs] show ?thesis
        by auto
    qed
  qed
qed

text \<open>
  After the replacement no occurrence of the pattern is left, provided the replacement is
  not empty and neither text begins with a code unit of the other.
\<close>

lemma replaceAll_none_left:
  "p \<noteq> [] \<Longrightarrow> r \<noteq> [] \<Longrightarrow> hd r \<notin> set p \<Longrightarrow> hd p \<notin> set r
     \<Longrightarrow> \<not> sublist p (replaceAll p r s)"
proof (induction p r s rule: replaceAll.induct)
  case (1 p r)
  then show ?case by simp
next
  case (2 p r c cs)
  note pne = \<open>p \<noteq> []\<close> and rne = \<open>r \<noteq> []\<close> and hr = \<open>hd r \<notin> set p\<close> and hp = \<open>hd p \<notin> set r\<close>
  show ?case
  proof (cases "prefix p (c # cs)")
    case True
    with pne have c: "p \<noteq> [] \<and> prefix p (c # cs)" by simp
    have ih: "\<not> sublist p (replaceAll p r (drop (length p) (c # cs)))"
      by (rule "2.IH"(1)[OF c pne rne hr hp])
    from c have eq: "replaceAll p r (c # cs) = r @ replaceAll p r (drop (length p) (c # cs))"
      by (simp del: drop_Cons)
    show ?thesis
      unfolding eq using ih sublist_append_skip[OF pne hp] by blast
  next
    case False
    then have c: "\<not> (p \<noteq> [] \<and> prefix p (c # cs))" by simp
    have ih: "\<not> sublist p (replaceAll p r cs)"
      by (rule "2.IH"(2)[OF c pne rne hr hp])
    from False have eq: "replaceAll p r (c # cs) = c # replaceAll p r cs" by simp
    have np: "\<not> prefix p (c # replaceAll p r cs)"
    proof
      assume "prefix p (c # replaceAll p r cs)"
      then have "prefix p (replaceAll p r (c # cs))" unfolding eq .
      then have "prefix p (c # cs)" by (rule prefix_replaceAll_back[OF rne hr])
      with False show False by simp
    qed
    show ?thesis unfolding eq using np ih by (simp add: sublist_Cons_right)
  qed
qed

text \<open>A text without the pattern is left as it is.\<close>

lemma replaceAll_id:
  "\<not> sublist p s \<Longrightarrow> replaceAll p r s = s"
proof (induction s)
  case Nil
  then show ?case by simp
next
  case (Cons c cs)
  then show ?case by (auto simp: sublist_Cons_right)
qed

lemma prefix_append_long:
  assumes "prefix p (u @ v)" "length p \<le> length u"
  shows "prefix p u"
proof -
  from assms(1) have "take (length p) (u @ v) = p"
    by (metis append_eq_conv_conj prefix_def)
  with assms(2) have "take (length p) u = p" by simp
  then show ?thesis by (metis take_is_prefix)
qed

text \<open>The leftmost occurrence is replaced, and the scan goes on behind it.\<close>

lemma replaceAll_occurrence:
  "p \<noteq> [] \<Longrightarrow> \<not> sublist p (a @ butlast p)
     \<Longrightarrow> replaceAll p r (a @ p @ b) = a @ r @ replaceAll p r b"
proof (induction a)
  case Nil
  then show ?case by (cases p) auto
next
  case (Cons c cs)
  have np: "\<not> prefix p ((c # cs) @ p @ b)"
  proof
    assume a: "prefix p ((c # cs) @ p @ b)"
    from Cons.prems(1) have "p = butlast p @ [last p]" by simp
    then have e: "(c # cs) @ p @ b = ((c # cs) @ butlast p) @ ([last p] @ b)"
      by (metis append.assoc)
    from a have "prefix p (((c # cs) @ butlast p) @ ([last p] @ b))"
      unfolding e .
    moreover have "length p \<le> length ((c # cs) @ butlast p)" by simp
    ultimately have "prefix p ((c # cs) @ butlast p)" by (rule prefix_append_long)
    with Cons.prems show False by (simp add: sublist_Cons_right)
  qed
  from Cons.prems have "\<not> sublist p (cs @ butlast p)" by (simp add: sublist_Cons_right)
  with Cons have "replaceAll p r (cs @ p @ b) = cs @ r @ replaceAll p r b" by simp
  with np show ?case by simp
qed

lemma all_dropWhile_iff: "(\<forall>x \<in> set (dropWhile P s). P x) \<longleftrightarrow> (\<forall>x \<in> set s. P x)"
  by (induction s) auto

lemma trim_empty_iff: "trim s = [] \<longleftrightarrow> (\<forall>c \<in> set s. isWhiteSpace c)"
  by (simp add: trim_def dropWhile_eq_Nil_conv all_dropWhile_iff)

lemma find_first_index:
  "i < length xs \<Longrightarrow> P (xs ! i) \<Longrightarrow> \<forall>j<i. \<not> P (xs ! j) \<Longrightarrow> find P xs = Some (xs ! i)"
proof (induction xs arbitrary: i)
  case Nil
  then show ?case by simp
next
  case (Cons x xs)
  show ?case
  proof (cases i)
    case 0
    with Cons.prems show ?thesis by simp
  next
    case (Suc k)
    with Cons.prems have "\<not> P x" by auto
    moreover from Suc Cons.prems have "find P xs = Some (xs ! k)"
      by (intro Cons.IH) auto
    ultimately show ?thesis using Suc by simp
  qed
qed

lemma template_matches_iff:
  "template_matches toLower userInput t \<longleftrightarrow>
     active t \<and> (\<exists>g \<in> set (trigger t). sublist (toLower g) (toLower userInput))"
  by (simp add: template_matches_def includes_str_def list_ex_iff)

section \<open>Claims about the dialogue simulation\<close>

text \<open>
  Claim C10. Submitting an input that is empty or consists only of whitespace, or
  submitting while no simulation is active, changes nothing: \<open>sendUserMessage\<close> returns
  before its first state update, so the simulation state (position, awaiting-input flag,
  transcript) and the input box are as before, no timer is set, and the whole turn leaves
  the state as it was.
\<close>

theorem sendUserMessage_noop:
  assumes "(\<forall>c \<in> set userInput. isWhiteSpace c) \<or> \<not> isActive s"
  shows "sendUserMessage toLower now tpls userInput s =
           \<lparr>report = None, sim = s, input = userInput, timer = None\<rparr>
         \<and> submitTurn toLower now later tpls userInput s = s"
  using assms by (auto simp: sendUserMessage_def submitTurn_def trim_empty_iff)

text \<open>Two blanks submitted to an active simulation that awaits input.\<close>

theorem sendUserMessage_noop_witness:
  "sendUserMessage toLowerCase 1 [oiTemplate] (js ''  '') awaitingState =
     \<lparr>report = None, sim = awaitingState, input = js ''  '', timer = None\<rparr>
   \<and> submitTurn toLowerCase 1 2 [oiTemplate] (js ''  '') awaitingState = awaitingState"
proof -
  have "\<forall>c \<in> set (js ''  ''). isWhiteSpace c"
    by (simp add: js_def isWhiteSpace_def)
  then have "(\<forall>c \<in> set (js ''  ''). isWhiteSpace c) \<or> \<not> isActive awaitingState" ..
  then show ?thesis by (rule sendUserMessage_noop)
qed

text \<open>
  Claim C1, amended. For every template list and every user text with at least one
  code unit that is not whitespace, submitted while the simulation is active and awaiting
  input, and whatever function of texts the lowercasing is: if template number \<open>i\<close> is
  active and the lowercased text contains one of its lowercased triggers, and no earlier
  template of the list is such, then the turn appends
  the user entry and a bot entry that carries the response of template \<open>i\<close> after the
  global replacement of the placeholder by the simulated name, together with the id of
  that template; the position points at that template's node and the simulation awaits
  input again. The replaced text contains no placeholder any more.
\<close>

theorem sendUserMessage_first_match:
  assumes "isActive s" and "awaitingInput s"
    and "\<exists>c \<in> set userInput. \<not> isWhiteSpace c"
    and "i < length tpls"
    and "active (tpls ! i)"
    and "\<exists>g \<in> set (trigger (tpls ! i)). sublist (toLower g) (toLower userInput)"
    and "\<forall>j<i. \<not> (active (tpls ! j) \<and>
           (\<exists>g \<in> set (trigger (tpls ! j)). sublist (toLower g) (toLower userInput)))"
  shows "submitTurn toLower now later tpls userInput s =
           s\<lparr>chatHistory := chatHistory s @
                [\<lparr>message_id = number_toString now, message_type = UserMessage,
                  content = trim userInput, timestamp = now, message_nodeId = None\<rparr>,
                 \<lparr>message_id = number_toString (later + 1), message_type = BotMessage,
                  content = replaceAll (js ''{name}'') simulatedName (response (tpls ! i)),
                  timestamp = later, message_nodeId = Some (template_id (tpls ! i))\<rparr>],
              awaitingInput := True,
              currentNodeId := Some (js ''template-'' @ template_id (tpls ! i))\<rparr>
         \<and> \<not> sublist (js ''{name}'')
               (replaceAll (js ''{name}'') simulatedName (response (tpls ! i)))"
proof -
  from assms(3) have nb: "trim userInput \<noteq> []" by (simp add: trim_empty_iff)
  have "find (template_matches toLower userInput) tpls = Some (tpls ! i)"
    using assms(4-7) by (intro find_first_index) (simp_all add: template_matches_iff)
  with nb assms(1) have "submitTurn toLower now later tpls userInput s =
           s\<lparr>chatHistory := chatHistory s @
                [\<lparr>message_id = number_toString now, message_type = UserMessage,
                  content = trim userInput, timestamp = now, message_nodeId = None\<rparr>,
                 \<lparr>message_id = number_toString (later + 1), message_type = BotMessage,
                  content = replaceAll (js ''{name}'') simulatedName (response (tpls ! i)),
                  timestamp = later, message_nodeId = Some (template_id (tpls ! i))\<rparr>],
              awaitingInput := True,
              currentNodeId := Some (js ''template-'' @ template_id (tpls ! i))\<rparr>"
    by (simp add: submitTurn_def sendUserMessage_def timerFires_def Let_def)
  moreover have "\<not> sublist (js ''{name}'')
               (replaceAll (js ''{name}'') simulatedName (response (tpls ! i)))"
    by (rule replaceAll_none_left) (simp_all add: js_def simulatedName_def)
  ultimately show ?thesis by simp
qed


text \<open>
  The example of the specification: the simulation is started on a graph with a start
  node, and "Oi" is submitted against the template triggered by "oi". Then the same with
  that template in the third place of a list: the first template is triggered by "oi" too
  but is not active, the second is active but triggered by "menu", and the fourth, active
  and triggered by "o", matches as well but comes later. The reply is that of the third.
\<close>

theorem sendUserMessage_first_match_witness:
  "submitTurn toLowerCase 1 2 [oiTemplate] (js ''Oi'') startedState =
     \<lparr>isActive = True, currentNodeId = Some (js ''template-1''),
      chatHistory =
        [\<lparr>message_id = js ''0'', message_type = BotMessage, content = welcomeText,
          timestamp = 0, message_nodeId = None\<rparr>,
         \<lparr>message_id = js ''1'', message_type = UserMessage, content = js ''Oi'',
          timestamp = 1, message_nodeId = None\<rparr>,
         \<lparr>message_id = js ''3'', message_type = BotMessage,
          content = js ''Hi '' @ simulatedName, timestamp = 2, message_nodeId = Some (js ''1'')\<rparr>],
      awaitingInput = True\<rparr>
   \<and> submitTurn toLowerCase 1 2 [mutedOiTemplate, menuTemplate, oiTemplate, laterTemplate]
         (js ''Oi'') startedState =
     \<lparr>isActive = True, currentNodeId = Some (js ''template-1''),
      chatHistory =
        [\<lparr>message_id = js ''0'', message_type = BotMessage, content = welcomeText,
          timestamp = 0, message_nodeId = None\<rparr>,
         \<lparr>message_id = js ''1'', message_type = UserMessage, content = js ''Oi'',
          timestamp = 1, message_nodeId = None\<rparr>,
         \<lparr>message_id = js ''3'', message_type = BotMessage,
          content = js ''Hi '' @ simulatedName, timestamp = 2, message_nodeId = Some (js ''1'')\<rparr>],
      awaitingInput = True\<rparr>"
proof -
  let ?four = "[mutedOiTemplate, menuTemplate, oiTemplate, laterTemplate]"
  have n0: "number_toString 0 = js ''0''"
    by (simp add: number_toString.simps js_def)
  have s: "startedState =
             \<lparr>isActive = True, currentNodeId = Some (js ''start-1''),
              chatHistory = [\<lparr>message_id = js ''0'', message_type = BotMessage,
                              content = welcomeText, timestamp = 0, message_nodeId = None\<rparr>],
              awaitingInput = True\<rparr>"
    by (simp add: startedState_def startChatSimulation_def startNode_def n0)
  have h1: "isActive startedState" and h2: "awaitingInput startedState"
    by (simp_all add: s)
  have h3: "\<exists>c \<in> set (js ''Oi''). \<not> isWhiteSpace c"
    by (simp add: js_def isWhiteSpace_def)
  have h4: "0 < length [oiTemplate]" by simp
  have h5: "active ([oiTemplate] ! 0)" by (simp add: oiTemplate_def)
  have h6: "\<exists>g \<in> set (trigger ([oiTemplate] ! 0)).
              sublist (toLowerCase g) (toLowerCase (js ''Oi''))"
    by (simp add: oiTemplate_def js_def toLowerCase_def lower_unit_def)
  have h7: "\<forall>j<0. \<not> (active ([oiTemplate] ! j) \<and>
              (\<exists>g \<in> set (trigger ([oiTemplate] ! j)).
                 sublist (toLowerCase g) (toLowerCase (js ''Oi''))))"
    by simp
  have k4: "2 < length ?four" by simp
  have k5: "active (?four ! 2)" by (simp add: oiTemplate_def)
  have k6: "\<exists>g \<in> set (trigger (?four ! 2)).
              sublist (toLowerCase g) (toLowerCase (js ''Oi''))"
    by (simp add: oiTemplate_def js_def toLowerCase_def lower_unit_def)
  have k7: "\<forall>j<2. \<not> (active (?four ! j) \<and>
              (\<exists>g \<in> set (trigger (?four ! j)).
                 sublist (toLowerCase g) (toLowerCase (js ''Oi''))))"
    by (simp add: less_2_cases_iff mutedOiTemplate_def menuTemplate_def js_def toLowerCase_def
        lower_unit_def sublist_Cons_right)
  have t: "trim (js ''Oi'') = js ''Oi''"
    by (simp add: trim_def js_def isWhiteSpace_def)
  have r: "replaceAll (js ''{name}'') simulatedName (js ''Hi {name}'') = js ''Hi '' @ simulatedName"
    by (simp add: js_def simulatedName_def)
  have n1: "number_toString (Suc 0) = js ''1''" and n3: "number_toString 3 = js ''3''"
    by (simp_all add: number_toString.simps js_def)
  have a: "js ''template-'' @ js ''1'' = js ''template-1''"
    by (simp add: js_def)
  from sendUserMessage_first_match[OF h1 h2 h3 h4 h5 h6 h7, of 1 2]
    sendUserMessage_first_match[OF h1 h2 h3 k4 k5 k6 k7, of 1 2]
  show ?thesis
    by (simp add: t r n1 n3 a oiTemplate_def s)
qed

text \<open>
  Claim C1 as stated fails on a blank input: a template whose trigger is the empty text
  (the trigger a new message node starts with) is contained in every input, also in a
  single blank, but \<open>sendUserMessage\<close> returns on a blank input before it looks at the
  templates, and no reply is made.
\<close>

theorem sendUserMessage_blank_counterexample:
  "active emptyTriggerTemplate
   \<and> sublist (toLowerCase []) (toLowerCase (js '' ''))
   \<and> trigger emptyTriggerTemplate = [[]]
   \<and> isActive awaitingState \<and> awaitingInput awaitingState
   \<and> submitTurn toLowerCase 1 2 [emptyTriggerTemplate] (js '' '') awaitingState = awaitingState"
  by (simp add: emptyTriggerTemplate_def awaitingState_def submitTurn_def sendUserMessage_def
      trim_def js_def isWhiteSpace_def toLowerCase_def)

text \<open>
  Claim C9, amended. For every user text with at least one code unit that is not
  whitespace, submitted while the simulation is active and awaiting input, that matches no
  active template (no active template has a trigger whose lower case occurs in the lower
  case of the text, whatever function of texts the lowercasing is), the turn appends the
  user entry and the fixed fallback entry, and the simulation awaits input again. The
  model is a total function: there is no crash.
\<close>

theorem no_match_fallback:
  assumes "isActive s" and "awaitingInput s"
    and "\<exists>c \<in> set userInput. \<not> isWhiteSpace c"
    and "\<forall>t \<in> set tpls. \<not> (active t \<and>
           (\<exists>g \<in> set (trigger t). sublist (toLower g) (toLower userInput)))"
  shows "submitTurn toLower now later tpls userInput s =
           s\<lparr>chatHistory := chatHistory s @
                [\<lparr>message_id = number_toString now, message_type = UserMessage,
                  content = trim userInput, timestamp = now, message_nodeId = None\<rparr>,
                 \<lparr>message_id = number_toString (later + 1), message_type = BotMessage,
                  content = fallbackText, timestamp = later, message_nodeId = None\<rparr>],
              awaitingInput := True\<rparr>"
proof -
  from assms(3) have nb: "trim userInput \<noteq> []" by (simp add: trim_empty_iff)
  from assms(4) have "find (template_matches toLower userInput) tpls = None"
    by (simp add: find_None_iff template_matches_iff)
  with nb assms(1) show ?thesis
    by (simp add: submitTurn_def sendUserMessage_def timerFires_def Let_def)
qed

text \<open>
  The example of the specification: "xyz" against the template triggered by "oi". Then
  "Oi" against a template triggered by "oi" that is not active and an active one triggered
  by "menu": no active template matches, and the reply is the fallback.
\<close>

theorem no_match_fallback_witness:
  "submitTurn toLowerCase 1 2 [oiTemplate] (js ''xyz'') awaitingState =
     awaitingState\<lparr>chatHistory :=
        [\<lparr>message_id = js ''1'', message_type = UserMessage, content = js ''xyz'',
          timestamp = 1, message_nodeId = None\<rparr>,
         \<lparr>message_id = js ''3'', message_type = BotMessage,
          content = fallbackText, timestamp = 2, message_nodeId = None\<rparr>],
        awaitingInput := True\<rparr>
   \<and> submitTurn toLowerCase 1 2 [mutedOiTemplate, menuTemplate] (js ''Oi'') awaitingState =
     awaitingState\<lparr>chatHistory :=
        [\<lparr>message_id = js ''1'', message_type = UserMessage, content = js ''Oi'',
          timestamp = 1, message_nodeId = None\<rparr>,
         \<lparr>message_id = js ''3'', message_type = BotMessage,
          content = fallbackText, timestamp = 2, message_nodeId = None\<rparr>],
        awaitingInput := True\<rparr>"
proof -
  have h1: "isActive awaitingState" and h2: "awaitingInput awaitingState"
    by (simp_all add: awaitingState_def)
  have h3: "\<exists>c \<in> set (js ''xyz''). \<not> isWhiteSpace c"
    by (simp add: js_def isWhiteSpace_def)
  have h4: "\<forall>t \<in> set [oiTemplate]. \<not> (active t \<and>
           (\<exists>g \<in> set (trigger t). sublist (toLowerCase g) (toLowerCase (js ''xyz''))))"
    by (simp add: oiTemplate_def js_def toLowerCase_def lower_unit_def sublist_Cons_right)
  have k3: "\<exists>c \<in> set (js ''Oi''). \<not> isWhiteSpace c"
    by (simp add: js_def isWhiteSpace_def)
  have k4: "\<forall>t \<in> set [mutedOiTemplate, menuTemplate]. \<not> (active t \<and>
           (\<exists>g \<in> set (trigger t). sublist (toLowerCase g) (toLowerCase (js ''Oi''))))"
    by (simp add: mutedOiTemplate_def menuTemplate_def js_def toLowerCase_def lower_unit_def
        sublist_Cons_right)
  have t: "trim (js ''xyz'') = js ''xyz''" "trim (js ''Oi'') = js ''Oi''"
    by (simp_all add: trim_def js_def isWhiteSpace_def)
  have n1: "number_toString (Suc 0) = js ''1''" and n3: "number_toString 3 = js ''3''"
    by (simp_all add: number_toString.simps js_def)
  from no_match_fallback[OF h1 h2 h3 h4, of 1 2] no_match_fallback[OF h1 h2 k3 k4, of 1 2]
  show ?thesis
    by (simp add: t n1 n3 awaitingState_def)
qed

text \<open>
  Claim C9 as stated fails on a blank input: two blanks match no template, and nothing is
  appended to the transcript, the fallback entry included.
\<close>

theorem no_match_blank_counterexample:
  "\<not> template_matches toLowerCase (js ''  '') oiTemplate
   \<and> isActive awaitingState \<and> awaitingInput awaitingState
   \<and> submitTurn toLowerCase 1 2 [oiTemplate] (js ''  '') awaitingState = awaitingState
   \<and> chatHistory (submitTurn toLowerCase 1 2 [oiTemplate] (js ''  '') awaitingState) = []"
  by (simp add: oiTemplate_def awaitingState_def submitTurn_def sendUserMessage_def
      trim_def js_def isWhiteSpace_def toLowerCase_def lower_unit_def template_matches_def
      includes_str_def sublist_Cons_right)




section \<open>Claims about the graph and the import\<close>

text \<open>
  Claim C7. For every graph and every node id, after the removal of that node no
  connection of the graph starts or ends at the id, and no node carries it. This holds for
  the state update that removes the node and, when the graph has a node of that id, for
  the state \<open>deleteFlowNode\<close> leaves at its store call and after either answer of the
  store.
\<close>

theorem removeNode_no_dangling:
  "(\<forall>c \<in> set (connections (removeNode nodeId g)). source c \<noteq> nodeId \<and> target c \<noteq> nodeId)
   \<and> (\<forall>n \<in> set (nodes (removeNode nodeId g)). node_id n \<noteq> nodeId)
   \<and> (find (\<lambda>node. node_id node = nodeId) (nodes g) \<noteq> None \<longrightarrow>
        fst (deleteFlowNode positiveNumber selectedProject nodeId g) = removeNode nodeId g
        \<and> (\<forall>ok nodeToDelete.
             \<forall>c \<in> set (connections (snd (deleteFlowNode_resume ok nodeToDelete
                                             (removeNode nodeId g)))).
               source c \<noteq> nodeId \<and> target c \<noteq> nodeId))"
  by (auto simp: removeNode_def deleteFlowNode_def deleteFlowNode_resume_def)

text \<open>
  A graph of three nodes and three connections: removing the middle node leaves the one
  connection that does not touch it.
\<close>

theorem removeNode_no_dangling_witness:
  "connections (removeNode (js ''template-5'') exampleEditor)
     = [edge (js ''start-1'') (js ''template-6'')]
   \<and> source (edge (js ''start-1'') (js ''template-6'')) \<noteq> js ''template-5''
   \<and> target (edge (js ''start-1'') (js ''template-6'')) \<noteq> js ''template-5''
   \<and> nodes (removeNode (js ''template-5'') exampleEditor) = [nodeS, nodeB]
   \<and> find (\<lambda>node. node_id node = js ''template-5'') (nodes exampleEditor) \<noteq> None
   \<and> fst (deleteFlowNode decimalPositive (Some (js ''1'')) (js ''template-5'') exampleEditor)
       = removeNode (js ''template-5'') exampleEditor"
proof -
  have c: "connections (removeNode (js ''template-5'') exampleEditor)
             = [edge (js ''start-1'') (js ''template-6'')]"
    by (simp add: removeNode_def exampleEditor_def edge_def js_def)
  have n: "nodes (removeNode (js ''template-5'') exampleEditor) = [nodeS, nodeB]"
    by (simp add: removeNode_def exampleEditor_def nodeS_def nodeA_def nodeB_def js_def)
  have f: "find (\<lambda>node. node_id node = js ''template-5'') (nodes exampleEditor) \<noteq> None"
    by (simp add: exampleEditor_def nodeS_def nodeA_def js_def)
  from removeNode_no_dangling[of "js ''template-5''" exampleEditor decimalPositive "Some (js ''1'')"]
    c n f
  show ?thesis by simp
qed

text \<open>
  Claim C4, amended. Per-node deletion first removes the node, with its connections, from
  the graph and only then calls the Template Store delete (when a project is selected and
  the template id of the node is a positive number): the state at the store call already
  lacks every node of that id. If the store call succeeds the state stays so; if it fails,
  the failure is reported and the node is put back into the node list, at its end.
\<close>

theorem deleteFlowNode_order_and_rollback:
  assumes "find (\<lambda>node. node_id node = nodeId) (nodes g) = Some nodeToDelete"
    and "projectSelected selectedProject"
    and "positiveNumber (templateIdOfNode nodeId)"
  shows "deleteFlowNode positiveNumber selectedProject nodeId g =
           (removeNode nodeId g, Some (templateIdOfNode nodeId, nodeToDelete))
         \<and> (\<forall>n \<in> set (nodes (removeNode nodeId g)). node_id n \<noteq> nodeId)
         \<and> deleteFlowNode_resume True nodeToDelete (removeNode nodeId g) =
             (None, removeNode nodeId g)
         \<and> deleteFlowNode_resume False nodeToDelete (removeNode nodeId g) =
             (Some StoreFailure,
              (removeNode nodeId g)\<lparr>nodes := nodes (removeNode nodeId g) @ [nodeToDelete]\<rparr>)
         \<and> nodeToDelete \<in> set (nodes g) \<and> node_id nodeToDelete = nodeId"
proof -
  from assms(1) have "nodeToDelete \<in> set (nodes g) \<and> node_id nodeToDelete = nodeId"
    by (auto simp: find_Some_iff)
  with assms show ?thesis
    by (simp add: deleteFlowNode_def deleteFlowNode_resume_def removeNode_def)
qed

text \<open>
  The middle node of the example graph, deleted under project 1.
\<close>

theorem deleteFlowNode_order_and_rollback_witness:
  "deleteFlowNode decimalPositive (Some (js ''1'')) (js ''template-5'') exampleEditor =
     (removeNode (js ''template-5'') exampleEditor, Some (js ''5'', nodeA))
   \<and> nodes (snd (deleteFlowNode_resume False nodeA
                   (removeNode (js ''template-5'') exampleEditor)))
       = [nodeS, nodeB, nodeA]"
proof -
  have h1: "find (\<lambda>node. node_id node = js ''template-5'') (nodes exampleEditor) = Some nodeA"
    by (simp add: exampleEditor_def nodeS_def nodeA_def js_def)
  have h2: "projectSelected (Some (js ''1''))"
    by (simp add: projectSelected_def js_def)
  have t: "templateIdOfNode (js ''template-5'') = js ''5''"
    by (simp add: templateIdOfNode_def js_def)
  have h3: "decimalPositive (templateIdOfNode (js ''template-5''))"
    unfolding t by (simp add: decimalPositive_def js_def)
  have n: "nodes (removeNode (js ''template-5'') exampleEditor) = [nodeS, nodeB]"
    by (simp add: removeNode_def exampleEditor_def nodeS_def nodeA_def nodeB_def js_def)
  from deleteFlowNode_order_and_rollback[where positiveNumber = decimalPositive, OF h1 h2 h3]
  show ?thesis by (simp add: t n)
qed

text \<open>
  Claim C4 as stated fails. At the moment the store is called the node has already left
  the graph; and after a failed store call the state is not the prior one: the node is
  back, but of the three connections only the one that did not touch it is left.
\<close>

theorem deleteFlowNode_counterexample:
  "nodeA \<in> set (nodes exampleEditor)
   \<and> snd (deleteFlowNode decimalPositive (Some (js ''1'')) (js ''template-5'') exampleEditor)
       = Some (js ''5'', nodeA)
   \<and> nodes (fst (deleteFlowNode decimalPositive (Some (js ''1'')) (js ''template-5'')
                   exampleEditor)) = [nodeS, nodeB]
   \<and> snd (deleteFlowNode_resume False nodeA
            (fst (deleteFlowNode decimalPositive (Some (js ''1'')) (js ''template-5'')
                   exampleEditor))) \<noteq> exampleEditor
   \<and> connections (snd (deleteFlowNode_resume False nodeA
            (fst (deleteFlowNode decimalPositive (Some (js ''1'')) (js ''template-5'')
                   exampleEditor)))) = [edge (js ''start-1'') (js ''template-6'')]
   \<and> length (connections exampleEditor) = 3"
  by (simp add: deleteFlowNode_def deleteFlowNode_resume_def removeNode_def exampleEditor_def
      nodeS_def nodeA_def nodeB_def edge_def projectSelected_def templateIdOfNode_def
      decimalPositive_def js_def)

text \<open>
  Claim C5. For every imported document whose \<open>nodes\<close> property or whose
  \<open>connections\<close> property is missing or is not an array, \<open>convertCodeToFlow\<close> gives
  null, the import reports the failure to the user, and the graph of the editor (nodes
  and connections, and the rest of its state) is as it was.
\<close>

theorem import_rejects_malformed:
  assumes "(\<forall>xs. property d (js ''nodes'') \<noteq> Some (JArray xs))
           \<or> (\<forall>xs. property d (js ''connections'') \<noteq> Some (JArray xs))"
  shows "convertCodeToFlow now (Some d) = None
         \<and> importFlowCode now (Some d) prev = (Some InvalidFormat, prev)"
proof -
  from assms have "\<not> isArray (property d (js ''nodes''))
                   \<or> \<not> isArray (property d (js ''connections''))"
    by (auto simp: isArray_def split: option.splits json.splits)
  then have "convertCodeToFlow now (Some d) = None"
    by (auto simp: convertCodeToFlow_def)
  then show ?thesis by (simp add: importFlowCode_def)
qed

text \<open>
  The example of the specification: \<open>nodes\<close> holds a text.
\<close>

theorem import_rejects_malformed_witness:
  "importFlowCode 7 (Some notAnArrayDocument) emptyImportState
     = (Some InvalidFormat, emptyImportState)"
proof -
  have "\<forall>xs. property notAnArrayDocument (js ''nodes'') \<noteq> Some (JArray xs)"
    by (simp add: notAnArrayDocument_def js_def)
  then have "(\<forall>xs. property notAnArrayDocument (js ''nodes'') \<noteq> Some (JArray xs))
           \<or> (\<forall>xs. property notAnArrayDocument (js ''connections'') \<noteq> Some (JArray xs))" ..
  from import_rejects_malformed[OF this, of 7 emptyImportState]
  show ?thesis by simp
qed

section \<open>Facts about the synthesis\<close>

lemma core_pushConnection [simp]: "core (pushConnection t n) = core n"
  by (simp add: core_def pushConnection_def)

lemma core_optionNode [simp]: "core (optionNode i opt) = optionNode i opt"
  by (simp add: core_def optionNode_def)

lemma core_specialNode [simp]: "core (specialNode i tpl) = specialNode i tpl"
  by (simp add: core_def specialNode_def)

lemma core_welcomeNode [simp]: "core (welcomeNode w) = welcomeNode w"
  by (simp add: core_def welcomeNode_def)

lemma core_startNode [simp]: "core startNode = startNode"
  by (simp add: core_def startNode_def)

lemma core_endNode [simp]: "core endNode = endNode"
  by (simp add: core_def endNode_def)

lemma core_makeHuman: "core (makeHuman n) = makeHuman (core n)"
  by (simp add: core_def makeHuman_def)

lemma node_id_core [simp]: "node_id (core n) = node_id n"
  by (simp add: core_def)

lemma map_core_update_push:
  "map core (xs[i := pushConnection t (xs ! i)]) = map core xs"
proof (cases "i < length xs")
  case True
  then show ?thesis by (simp add: map_update list_update_same_conv)
next
  case False
  then have "xs[i := pushConnection t (xs ! i)] = xs" by (simp add: list_update_beyond)
  then show ?thesis by simp
qed

lemma map_core_changeFirst_push:
  "map core (changeFirst nid (pushConnection t) xs) = map core xs"
  by (induction xs) auto

lemma map_core_changeFirst_makeHuman:
  "map core (changeFirst nid makeHuman xs) = changeFirst nid makeHuman (map core xs)"
  by (induction xs) (auto simp: core_makeHuman)

lemma addOptionNodes_nodes:
  "map core (fst (addOptionNodes w i opts (ns, cs))) = map core ns @ optionNodesFrom i opts"
proof (induction opts arbitrary: i ns cs)
  case Nil
  then show ?case by simp
next
  case (Cons opt rest)
  show ?case
  proof (cases w)
    case None
    then show ?thesis using Cons.IH[of "Suc i" "ns @ [optionNode i opt]" cs] by simp
  next
    case (Some wid)
    then show ?thesis
      using Cons.IH[of "Suc i"
          "(ns @ [optionNode i opt])[1 := pushConnection (templateNodeId opt)
                                            ((ns @ [optionNode i opt]) ! 1)]"
          "cs @ [connect wid (templateNodeId opt)]"]
      by (simp add: map_core_update_push del: list_update.simps)
  qed
qed

lemma addOptionNodes_connections:
  "snd (addOptionNodes w i opts (ns, cs)) =
     cs @ (case w of None \<Rightarrow> []
           | Some wid \<Rightarrow> map (\<lambda>opt. connect wid (templateNodeId opt)) opts)"
proof (induction opts arbitrary: i ns cs)
  case Nil
  then show ?case by (simp split: option.splits)
next
  case (Cons opt rest)
  show ?case
  proof (cases w)
    case None
    then show ?thesis using Cons.IH[of "Suc i" "ns @ [optionNode i opt]" cs] by simp
  next
    case (Some wid)
    then show ?thesis
      using Cons.IH[of "Suc i"
          "(ns @ [optionNode i opt])[1 := pushConnection (templateNodeId opt)
                                            ((ns @ [optionNode i opt]) ! 1)]"
          "cs @ [connect wid (templateNodeId opt)]"]
      by (simp del: list_update.simps)
  qed
qed

lemma addSpecialNodes_nodes:
  "map core (fst (addSpecialNodes menu i tpls (ns, cs))) = map core ns @ specialNodesFrom i tpls"
proof (induction tpls arbitrary: i ns cs)
  case Nil
  then show ?case by simp
next
  case (Cons tpl rest)
  show ?case
  proof (cases "find isComprarOption menu")
    case None
    then show ?thesis using Cons.IH[of "Suc i" "ns @ [specialNode i tpl]" cs] by simp
  next
    case (Some c)
    then show ?thesis
      using Cons.IH[of "Suc i"
          "changeFirst (templateNodeId c) (pushConnection (templateNodeId tpl))
             (ns @ [specialNode i tpl])"
          "cs @ [connect (templateNodeId c) (templateNodeId tpl)]"]
      by (simp add: map_core_changeFirst_push)
  qed
qed

lemma addSpecialNodes_connections:
  "snd (addSpecialNodes menu i tpls (ns, cs)) =
     cs @ (case find isComprarOption menu of None \<Rightarrow> []
           | Some c \<Rightarrow> map (\<lambda>tpl. connect (templateNodeId c) (templateNodeId tpl)) tpls)"
proof (induction tpls arbitrary: i ns cs)
  case Nil
  then show ?case by (simp split: option.splits)
next
  case (Cons tpl rest)
  show ?case
  proof (cases "find isComprarOption menu")
    case None
    then show ?thesis using Cons.IH[of "Suc i" "ns @ [specialNode i tpl]" cs] by simp
  next
    case (Some c)
    then show ?thesis
      using Cons.IH[of "Suc i"
          "changeFirst (templateNodeId c) (pushConnection (templateNodeId tpl))
             (ns @ [specialNode i tpl])"
          "cs @ [connect (templateNodeId c) (templateNodeId tpl)]"]
      by simp
  qed
qed

lemma connectLeaves_nodes: "map core (fst (connectLeaves g)) = map core (fst g)"
  by (simp add: connectLeaves_def)

lemma addOptionNodes_nodes':
  "map core (fst (addOptionNodes w i opts g)) = map core (fst g) @ optionNodesFrom i opts"
  using addOptionNodes_nodes[of w i opts "fst g" "snd g"] by simp

lemma addOptionNodes_connections':
  "snd (addOptionNodes w i opts g) =
     snd g @ (case w of None \<Rightarrow> []
              | Some wid \<Rightarrow> map (\<lambda>opt. connect wid (templateNodeId opt)) opts)"
  using addOptionNodes_connections[of w i opts "fst g" "snd g"] by simp

lemma addSpecialNodes_nodes':
  "map core (fst (addSpecialNodes menu i tpls g)) = map core (fst g) @ specialNodesFrom i tpls"
  using addSpecialNodes_nodes[of menu i tpls "fst g" "snd g"] by simp

lemma addSpecialNodes_connections':
  "snd (addSpecialNodes menu i tpls g) =
     snd g @ (case find isComprarOption menu of None \<Rightarrow> []
              | Some c \<Rightarrow> map (\<lambda>tpl. connect (templateNodeId c) (templateNodeId tpl)) tpls)"
  using addSpecialNodes_connections[of menu i tpls "fst g" "snd g"] by simp

lemma synthesis_skeleton:
  "map core (fst (convertTemplatesToFlow T)) =
     (case find isHumanOption (menuOptionsOf T) of
        None \<Rightarrow> id
      | Some h \<Rightarrow> changeFirst (templateNodeId h) makeHuman)
       (startNode # map welcomeNode (welcomeOf T) @ optionNodesFrom 0 (menuOptionsOf T)
          @ specialNodesFrom 0 (filter isSpecial T))
     @ [endNode]"
proof (cases "find isGreeting T")
  case None
  then show ?thesis
    by (simp add: convertTemplatesToFlow_def flowBeforeLeaves_def Let_def connectLeaves_nodes
        welcomeOf_def map_core_changeFirst_makeHuman addSpecialNodes_nodes' addOptionNodes_nodes'
        split: option.splits)
next
  case (Some w)
  then show ?thesis
    by (simp add: convertTemplatesToFlow_def flowBeforeLeaves_def Let_def connectLeaves_nodes
        welcomeOf_def map_core_changeFirst_makeHuman addSpecialNodes_nodes' addOptionNodes_nodes'
        split: option.splits)
qed

lemma flowBeforeLeaves_connections:
  "snd (flowBeforeLeaves T) =
       map (\<lambda>w. connect (node_id startNode) (templateNodeId w)) (welcomeOf T)
       @ concat (map (\<lambda>w. map (\<lambda>opt. connect (templateNodeId w) (templateNodeId opt))
                              (menuOptionsOf T)) (welcomeOf T))
       @ (case find isComprarOption (menuOptionsOf T) of
            None \<Rightarrow> []
          | Some c \<Rightarrow> map (\<lambda>tpl. connect (templateNodeId c) (templateNodeId tpl))
                        (filter isSpecial T))"
proof (cases "find isGreeting T")
  case None
  then show ?thesis
    by (simp add: flowBeforeLeaves_def Let_def welcomeOf_def addSpecialNodes_connections'
        addOptionNodes_connections' split: option.splits)
next
  case (Some w)
  then show ?thesis
    by (simp add: flowBeforeLeaves_def Let_def welcomeOf_def addSpecialNodes_connections'
        addOptionNodes_connections' split: option.splits)
qed

lemma synthesis_connections:
  "snd (convertTemplatesToFlow T) =
     snd (flowBeforeLeaves T)
     @ map (\<lambda>node. connect (node_id node) (node_id endNode))
         (filter isLeaf (fst (flowBeforeLeaves T)))"
  by (simp add: convertTemplatesToFlow_def connectLeaves_def)

lemma length_changeFirst [simp]: "length (changeFirst nid f xs) = length xs"
  by (induction xs) auto

lemma nth_changeFirst:
  "j < length xs \<Longrightarrow> changeFirst nid f xs ! j = xs ! j \<or> changeFirst nid f xs ! j = f (xs ! j)"
proof (induction xs arbitrary: j)
  case Nil
  then show ?case by simp
next
  case (Cons x xs)
  then show ?case by (cases j) auto
qed

lemma length_optionNodesFrom [simp]: "length (optionNodesFrom i opts) = length opts"
  by (induction opts arbitrary: i) auto

lemma nth_optionNodesFrom:
  "k < length opts \<Longrightarrow> optionNodesFrom i opts ! k = optionNode (i + k) (opts ! k)"
proof (induction opts arbitrary: i k)
  case Nil
  then show ?case by simp
next
  case (Cons opt rest)
  then show ?case by (cases k) auto
qed

lemma length_specialNodesFrom [simp]: "length (specialNodesFrom i tpls) = length tpls"
  by (induction tpls arbitrary: i) auto

lemma makeHuman_keeps [simp]:
  "node_id (makeHuman n) = node_id n" "nodeTuple (makeHuman n) = nodeTuple n"
  "type (makeHuman n) = Human"
  by (simp_all add: makeHuman_def nodeTuple_def)

lemma core_keeps [simp]: "nodeTuple (core n) = nodeTuple n" "type (core n) = type n"
  by (simp_all add: core_def nodeTuple_def)

lemma optionNode_fields [simp]:
  "node_id (optionNode i opt) = templateNodeId opt"
  "nodeTuple (optionNode i opt) = templateTuple opt"
  "type (optionNode i opt) = Message"
  by (simp_all add: optionNode_def nodeTuple_def templateTuple_def templateData_def)

lemma isMenuOption_iff:
  "isMenuOption t \<longleftrightarrow>
     (\<exists>g \<in> set (trigger t). g \<in> set menuDigits)
     \<and> \<not> (\<exists>g \<in> set (trigger t). toLowerCase g \<in> set greetingWords)"
  by (simp add: isMenuOption_def isGreeting_def list_ex_iff)

lemma length_welcomeOf: "length (welcomeOf T) \<le> 1"
  by (simp add: welcomeOf_def split: option.splits)

text \<open>The option node number \<open>k\<close> of the synthesized graph.\<close>

lemma synthesis_option_node:
  assumes "k < length (menuOptionsOf T)"
  defines "n \<equiv> fst (convertTemplatesToFlow T) ! (1 + length (welcomeOf T) + k)"
  shows "node_id n = templateNodeId (menuOptionsOf T ! k)"
    and "nodeTuple n = templateTuple (menuOptionsOf T ! k)"
    and "type n = Message \<or> type n = Human"
    and "find isHumanOption (menuOptionsOf T) = None \<Longrightarrow> type n = Message"
proof -
  let ?xs = "startNode # map welcomeNode (welcomeOf T) @ optionNodesFrom 0 (menuOptionsOf T)
               @ specialNodesFrom 0 (filter isSpecial T)"
  let ?H = "case find isHumanOption (menuOptionsOf T) of
              None \<Rightarrow> id | Some h \<Rightarrow> changeFirst (templateNodeId h) makeHuman"
  let ?idx = "1 + length (welcomeOf T) + k"
  have len: "?idx < length ?xs" using assms(1) by simp
  have x: "?xs ! ?idx = optionNode k (menuOptionsOf T ! k)"
    using assms(1) by (simp add: nth_append nth_optionNodesFrom)
  have lenH: "length (?H ?xs) = length ?xs" by (simp split: option.splits)
  have sk: "map core (fst (convertTemplatesToFlow T)) = ?H ?xs @ [endNode]"
    by (rule synthesis_skeleton)
  then have "length (fst (convertTemplatesToFlow T)) = length ?xs + 1"
    using lenH by (metis length_append_singleton length_map Suc_eq_plus1)
  with len have inr: "?idx < length (fst (convertTemplatesToFlow T))" by simp
  have "core n = map core (fst (convertTemplatesToFlow T)) ! ?idx"
    unfolding n_def using inr by simp
  also have "\<dots> = ?H ?xs ! ?idx"
    unfolding sk using len lenH by (simp add: nth_append)
  finally have cn: "core n = ?H ?xs ! ?idx" .
  have alt: "?H ?xs ! ?idx = ?xs ! ?idx \<or> ?H ?xs ! ?idx = makeHuman (?xs ! ?idx)"
    using nth_changeFirst[OF len] by (simp split: option.splits)
  from alt cn x have c2: "core n = optionNode k (menuOptionsOf T ! k)
                          \<or> core n = makeHuman (optionNode k (menuOptionsOf T ! k))"
    by simp
  from c2 show "node_id n = templateNodeId (menuOptionsOf T ! k)"
    by (metis node_id_core makeHuman_keeps(1) optionNode_fields(1))
  from c2 show "nodeTuple n = templateTuple (menuOptionsOf T ! k)"
    by (metis core_keeps(1) makeHuman_keeps(2) optionNode_fields(2))
  from c2 show "type n = Message \<or> type n = Human"
    by (metis core_keeps(2) makeHuman_keeps(3) optionNode_fields(3))
  show "type n = Message" if "find isHumanOption (menuOptionsOf T) = None"
  proof -
    from that cn x have "core n = optionNode k (menuOptionsOf T ! k)" by simp
    then show ?thesis by (metis core_keeps(2) optionNode_fields(3))
  qed
qed

lemma templateNodeId_not_start [simp]: "templateNodeId t \<noteq> node_id startNode"
  by (simp add: templateNodeId_def startNode_def js_def)

lemma source_connect [simp]: "source (connect s t) = s" "target (connect s t) = t"
  by (simp_all add: connect_def)

lemma synthesis_welcome_connections:
  assumes "find isGreeting T = Some w" and "m \<in> set (menuOptionsOf T)"
  shows "connect (templateNodeId w) (templateNodeId m) \<in> set (snd (convertTemplatesToFlow T))"
  using assms by (simp add: synthesis_connections flowBeforeLeaves_connections welcomeOf_def)

lemma synthesis_no_start_connection:
  assumes "find isGreeting T = None" and "c \<in> set (snd (convertTemplatesToFlow T))"
  shows "source c \<noteq> node_id startNode"
  using assms
  by (auto simp: synthesis_connections flowBeforeLeaves_connections welcomeOf_def isLeaf_def
      split: option.splits)

lemma menuOptions_are_menu: "m \<in> set (menuOptionsOf T) \<Longrightarrow> isMenuOption m"
  by (simp add: menuOptionsOf_def)

lemma welcome_is_greeting: "w \<in> set (welcomeOf T) \<Longrightarrow> isGreeting w"
proof (cases "find isGreeting T")
  case None
  assume "w \<in> set (welcomeOf T)"
  with None show ?thesis by (simp add: welcomeOf_def)
next
  case (Some v)
  assume "w \<in> set (welcomeOf T)"
  with Some have "v = w" by (simp add: welcomeOf_def)
  with Some show ?thesis by (auto simp: find_Some_iff)
qed

lemma nth_changeFirst_other:
  "j < length xs \<Longrightarrow> node_id (xs ! j) \<noteq> nid \<Longrightarrow> changeFirst nid f xs ! j = xs ! j"
proof (induction xs arbitrary: j)
  case Nil
  then show ?case by simp
next
  case (Cons x xs)
  then show ?case by (cases j) auto
qed

lemma nth_changeFirst_first:
  "j < length xs \<Longrightarrow> node_id (xs ! j) = nid \<Longrightarrow> \<forall>i<j. node_id (xs ! i) \<noteq> nid
     \<Longrightarrow> changeFirst nid f xs ! j = f (xs ! j)"
proof (induction xs arbitrary: j)
  case Nil
  then show ?case by simp
next
  case (Cons x xs)
  show ?case
  proof (cases j)
    case 0
    with Cons.prems show ?thesis by simp
  next
    case (Suc m)
    with Cons.prems have "node_id x \<noteq> nid" by auto
    moreover from Suc Cons.prems have "changeFirst nid f xs ! m = f (xs ! m)"
      by (intro Cons.IH) auto
    ultimately show ?thesis using Suc by simp
  qed
qed

lemma templateNodeId_eq_iff:
  "templateNodeId a = templateNodeId b \<longleftrightarrow> template_id a = template_id b"
  by (simp add: templateNodeId_def)

lemma welcomeOf_subset: "w \<in> set (welcomeOf T) \<Longrightarrow> w \<in> set T"
proof (cases "find isGreeting T")
  case None
  assume "w \<in> set (welcomeOf T)"
  with None show ?thesis by (simp add: welcomeOf_def)
next
  case (Some v)
  assume "w \<in> set (welcomeOf T)"
  with Some have "v = w" by (simp add: welcomeOf_def)
  with Some show ?thesis by (auto simp: find_Some_iff)
qed

lemma menuOptionsOf_subset: "m \<in> set (menuOptionsOf T) \<Longrightarrow> m \<in> set T"
  by (simp add: menuOptionsOf_def)

text \<open>
  When the templates have pairwise distinct ids, the node that is retyped is the node of
  the operator option itself: no node before it has its id.
\<close>

lemma synthesis_option_type:
  assumes d: "distinct (map template_id T)" and k: "k < length (menuOptionsOf T)"
  shows "type (fst (convertTemplatesToFlow T) ! (1 + length (welcomeOf T) + k)) =
           (if find isHumanOption (menuOptionsOf T) = Some (menuOptionsOf T ! k)
            then Human else Message)"
proof -
  let ?opts = "menuOptionsOf T"
  let ?xs = "startNode # map welcomeNode (welcomeOf T) @ optionNodesFrom 0 ?opts
               @ specialNodesFrom 0 (filter isSpecial T)"
  let ?H = "case find isHumanOption ?opts of
              None \<Rightarrow> id | Some h \<Rightarrow> changeFirst (templateNodeId h) makeHuman"
  let ?idx = "1 + length (welcomeOf T) + k"
  let ?n = "fst (convertTemplatesToFlow T) ! ?idx"
  have len: "?idx < length ?xs" using k by simp
  have x: "?xs ! ?idx = optionNode k (?opts ! k)"
    using k by (simp add: nth_append nth_optionNodesFrom)
  have lenH: "length (?H ?xs) = length ?xs" by (simp split: option.splits)
  have sk: "map core (fst (convertTemplatesToFlow T)) = ?H ?xs @ [endNode]"
    by (rule synthesis_skeleton)
  then have "length (fst (convertTemplatesToFlow T)) = length ?xs + 1"
    using lenH by (metis length_append_singleton length_map Suc_eq_plus1)
  with len have inr: "?idx < length (fst (convertTemplatesToFlow T))" by simp
  have "core ?n = map core (fst (convertTemplatesToFlow T)) ! ?idx"
    using inr by simp
  also have "\<dots> = ?H ?xs ! ?idx"
    unfolding sk using len lenH by (simp add: nth_append)
  finally have cn: "core ?n = ?H ?xs ! ?idx" .
  have ty: "type ?n = type (?H ?xs ! ?idx)"
    using cn by (metis core_keeps(2))
  from d have inj: "inj_on template_id (set T)" and dT: "distinct T"
    by (simp_all add: distinct_map)
  have dopts: "distinct ?opts" using dT by (simp add: menuOptionsOf_def)
  have kin: "?opts ! k \<in> set ?opts" using k by simp
  then have kT: "?opts ! k \<in> set T" by (rule menuOptionsOf_subset)
  have knot: "\<not> isGreeting (?opts ! k)"
    using menuOptions_are_menu[OF kin] by (simp add: isMenuOption_def)
  have differ: "templateNodeId t \<noteq> templateNodeId (?opts ! k)"
    if "t \<in> set T" "t \<noteq> ?opts ! k" for t
    using that kT inj by (auto simp: templateNodeId_eq_iff inj_on_def)
  have early: "node_id (?xs ! i) \<noteq> templateNodeId (?opts ! k)" if i: "i < ?idx" for i
  proof -
    consider "i = 0" | "1 \<le> i" "i < 1 + length (welcomeOf T)" | "1 + length (welcomeOf T) \<le> i"
      by linarith
    then show ?thesis
    proof cases
      case 1
      then show ?thesis using templateNodeId_not_start[of "?opts ! k", THEN not_sym] by simp
    next
      case 2
      then obtain m where m: "i = Suc m" "m < length (welcomeOf T)"
        by (cases i) auto
      then have e: "?xs ! i = welcomeNode (welcomeOf T ! m)" by (simp add: nth_append)
      have win: "welcomeOf T ! m \<in> set (welcomeOf T)" using m by simp
      then have "isGreeting (welcomeOf T ! m)" by (rule welcome_is_greeting)
      with knot have "welcomeOf T ! m \<noteq> ?opts ! k" by auto
      with welcomeOf_subset[OF win] have "templateNodeId (welcomeOf T ! m) \<noteq> templateNodeId (?opts ! k)"
        by (rule differ)
      then show ?thesis unfolding e by (simp add: welcomeNode_def)
    next
      case 3
      then obtain m where m: "i = 1 + length (welcomeOf T) + m" "m < k"
        using i by (metis add_less_cancel_left le_Suc_ex)
      with k have mk: "m < length ?opts" by simp
      from m mk have e: "?xs ! i = optionNode m (?opts ! m)"
        by (simp add: nth_append nth_optionNodesFrom)
      have "?opts ! m \<noteq> ?opts ! k"
        using dopts m(2) mk k by (simp add: nth_eq_iff_index_eq)
      moreover have "?opts ! m \<in> set T" using mk by (simp add: menuOptionsOf_subset)
      ultimately have "templateNodeId (?opts ! m) \<noteq> templateNodeId (?opts ! k)"
        using differ by blast
      then show ?thesis unfolding e by simp
    qed
  qed
  show ?thesis
  proof (cases "find isHumanOption ?opts")
    case None
    then have "?H ?xs ! ?idx = ?xs ! ?idx" by simp
    with ty x None show ?thesis by simp
  next
    case (Some h)
    then have hin: "h \<in> set ?opts" by (auto simp: find_Some_iff)
    show ?thesis
    proof (cases "h = ?opts ! k")
      case True
      have "changeFirst (templateNodeId h) makeHuman ?xs ! ?idx = makeHuman (?xs ! ?idx)"
      proof (rule nth_changeFirst_first[OF len])
        show "node_id (?xs ! ?idx) = templateNodeId h" unfolding x using True by simp
        show "\<forall>i<?idx. node_id (?xs ! i) \<noteq> templateNodeId h"
          using early True by simp
      qed
      with Some have "?H ?xs ! ?idx = makeHuman (?xs ! ?idx)" by simp
      with ty Some True show ?thesis by simp
    next
      case False
      have "templateNodeId h \<noteq> templateNodeId (?opts ! k)"
        using menuOptionsOf_subset[OF hin] False by (rule differ)
      then have "node_id (?xs ! ?idx) \<noteq> templateNodeId h" unfolding x by simp
      from nth_changeFirst_other[OF len this]
      have "changeFirst (templateNodeId h) makeHuman ?xs ! ?idx = ?xs ! ?idx" .
      with Some have "?H ?xs ! ?idx = ?xs ! ?idx" by simp
      with ty x Some False show ?thesis by simp
    qed
  qed
qed


lemma find_Some_distinct_iff:
  assumes "distinct xs" "k < length xs"
  shows "find P xs = Some (xs ! k) \<longleftrightarrow> P (xs ! k) \<and> (\<forall>j<k. \<not> P (xs ! j))"
proof
  assume "find P xs = Some (xs ! k)"
  then obtain i where i: "i < length xs" "P (xs ! i)" "xs ! k = xs ! i" "\<forall>j<i. \<not> P (xs ! j)"
    by (auto simp: find_Some_iff)
  from assms i(1,3) have "i = k" by (metis nth_eq_iff_index_eq)
  with i(2,4) show "P (xs ! k) \<and> (\<forall>j<k. \<not> P (xs ! j))" by simp
next
  assume "P (xs ! k) \<and> (\<forall>j<k. \<not> P (xs ! j))"
  with assms(2) show "find P xs = Some (xs ! k)" by (simp add: find_first_index)
qed

lemma synthesis_option_type_first:
  assumes d: "distinct (map template_id T)" and k: "k < length (menuOptionsOf T)"
  shows "type (fst (convertTemplatesToFlow T) ! (1 + length (welcomeOf T) + k)) =
           (if isHumanOption (menuOptionsOf T ! k)
               \<and> (\<forall>j<k. \<not> isHumanOption (menuOptionsOf T ! j))
            then Human else Message)"
proof -
  from d have "distinct T" by (simp add: distinct_map)
  then have "distinct (menuOptionsOf T)" by (simp add: menuOptionsOf_def)
  from find_Some_distinct_iff[OF this k, of isHumanOption] synthesis_option_type[OF d k]
  show ?thesis by simp
qed

section \<open>Claims about the synthesis\<close>

text \<open>
  Claim C3, amended. During synthesis the menu options are exactly the templates with a
  trigger among \<open>1\<close> to \<open>5\<close> and no trigger whose lowercase form is a greeting word,
  in ascending order of the numeric trigger found. Option number \<open>k\<close> is the node that
  follows the start node and the welcome node, if any, at distance \<open>k\<close>; it carries the id,
  triggers, response and active flag of its template and is a message node or a human node
  (a message node when no option has an operator trigger). When the templates have
  pairwise distinct ids, the human node is the node of the operator option, the first
  option in that order with a trigger whose lowercase form is \<open>3\<close>, \<open>operador\<close>,
  \<open>atendente\<close>, \<open>humano\<close> or \<open>pessoa\<close>, and every other option node is a message node.
  When a welcome node exists, every option node has an incoming connection from it. When
  none exists, no connection of the graph starts at the start node: the options are not
  connected from it.
\<close>

theorem synthesis_menu_options:
  "mset (menuOptionsOf T) =
     mset (filter (\<lambda>t. (\<exists>g \<in> set (trigger t). g \<in> set menuDigits)
                      \<and> \<not> (\<exists>g \<in> set (trigger t). toLowerCase g \<in> set greetingWords)) T)
   \<and> sorted (map menuNumber (menuOptionsOf T))
   \<and> (\<forall>k < length (menuOptionsOf T).
         node_id (fst (convertTemplatesToFlow T) ! (1 + length (welcomeOf T) + k))
           = js ''template-'' @ template_id (menuOptionsOf T ! k)
         \<and> nodeTuple (fst (convertTemplatesToFlow T) ! (1 + length (welcomeOf T) + k))
           = templateTuple (menuOptionsOf T ! k)
         \<and> (type (fst (convertTemplatesToFlow T) ! (1 + length (welcomeOf T) + k)) = Message
            \<or> type (fst (convertTemplatesToFlow T) ! (1 + length (welcomeOf T) + k)) = Human)
         \<and> (find isHumanOption (menuOptionsOf T) = None \<longrightarrow>
              type (fst (convertTemplatesToFlow T) ! (1 + length (welcomeOf T) + k)) = Message)
         \<and> (distinct (map template_id T) \<longrightarrow>
              type (fst (convertTemplatesToFlow T) ! (1 + length (welcomeOf T) + k)) =
                (if isHumanOption (menuOptionsOf T ! k)
                    \<and> (\<forall>j<k. \<not> isHumanOption (menuOptionsOf T ! j))
                 then Human else Message)))
   \<and> (\<forall>w. find isGreeting T = Some w \<longrightarrow>
         (\<forall>m \<in> set (menuOptionsOf T).
            \<exists>c \<in> set (snd (convertTemplatesToFlow T)).
              source c = js ''template-'' @ template_id w
              \<and> target c = js ''template-'' @ template_id m))
   \<and> (find isGreeting T = None \<longrightarrow>
         (\<forall>c \<in> set (snd (convertTemplatesToFlow T)). source c \<noteq> js ''start-1''))"
proof (intro conjI allI impI ballI)
  have "filter (\<lambda>t. (\<exists>g \<in> set (trigger t). g \<in> set menuDigits)
                      \<and> \<not> (\<exists>g \<in> set (trigger t). toLowerCase g \<in> set greetingWords)) T
        = filter isMenuOption T"
    by (rule filter_cong) (simp_all add: isMenuOption_iff)
  then show "mset (menuOptionsOf T) =
     mset (filter (\<lambda>t. (\<exists>g \<in> set (trigger t). g \<in> set menuDigits)
                      \<and> \<not> (\<exists>g \<in> set (trigger t). toLowerCase g \<in> set greetingWords)) T)"
    by (simp add: menuOptionsOf_def)
next
  show "sorted (map menuNumber (menuOptionsOf T))"
    by (simp add: menuOptionsOf_def)
next
  fix k assume "k < length (menuOptionsOf T)"
  then show "node_id (fst (convertTemplatesToFlow T) ! (1 + length (welcomeOf T) + k))
           = js ''template-'' @ template_id (menuOptionsOf T ! k)"
    using synthesis_option_node(1)[of k T] by (simp add: templateNodeId_def)
next
  fix k assume "k < length (menuOptionsOf T)"
  then show "nodeTuple (fst (convertTemplatesToFlow T) ! (1 + length (welcomeOf T) + k))
           = templateTuple (menuOptionsOf T ! k)"
    by (rule synthesis_option_node(2))
next
  fix k assume "k < length (menuOptionsOf T)"
  then show "type (fst (convertTemplatesToFlow T) ! (1 + length (welcomeOf T) + k)) = Message
            \<or> type (fst (convertTemplatesToFlow T) ! (1 + length (welcomeOf T) + k)) = Human"
    by (rule synthesis_option_node(3))
next
  fix k assume "k < length (menuOptionsOf T)" "find isHumanOption (menuOptionsOf T) = None"
  then show "type (fst (convertTemplatesToFlow T) ! (1 + length (welcomeOf T) + k)) = Message"
    by (rule synthesis_option_node(4))
next
  fix k assume "k < length (menuOptionsOf T)" "distinct (map template_id T)"
  then show "type (fst (convertTemplatesToFlow T) ! (1 + length (welcomeOf T) + k)) =
                (if isHumanOption (menuOptionsOf T ! k)
                    \<and> (\<forall>j<k. \<not> isHumanOption (menuOptionsOf T ! j))
                 then Human else Message)"
    by (intro synthesis_option_type_first)
next
  fix w m assume "find isGreeting T = Some w" "m \<in> set (menuOptionsOf T)"
  then have "connect (templateNodeId w) (templateNodeId m) \<in> set (snd (convertTemplatesToFlow T))"
    by (rule synthesis_welcome_connections)
  then show "\<exists>c \<in> set (snd (convertTemplatesToFlow T)).
              source c = js ''template-'' @ template_id w
              \<and> target c = js ''template-'' @ template_id m"
    by (rule bexI[rotated]) (simp add: templateNodeId_def)
next
  fix c assume "find isGreeting T = None" "c \<in> set (snd (convertTemplatesToFlow T))"
  then have "source c \<noteq> node_id startNode" by (rule synthesis_no_start_connection)
  then show "source c \<noteq> js ''start-1''" by (simp add: startNode_def)
qed

lemma menuOptionsOf_example1:
  "menuOptionsOf [tplOption3, tplOption1, tplWelcome, tplOption2]
     = [tplOption1, tplOption2, tplOption3]"
  by (simp add: menuOptionsOf_def isMenuOption_def isGreeting_def menuNumber_def parseInt_def
      menuDigits_def greetingWords_def toLowerCase_def lower_unit_def
      tplOption1_def tplOption2_def tplOption3_def tplWelcome_def js_def)

lemma menuOptionsOf_example2:
  "menuOptionsOf [tplOption2, tplOption1] = [tplOption1, tplOption2]"
  by (simp add: menuOptionsOf_def isMenuOption_def isGreeting_def menuNumber_def parseInt_def
      menuDigits_def greetingWords_def toLowerCase_def lower_unit_def
      tplOption1_def tplOption2_def js_def)

lemma find_greeting_example1:
  "find isGreeting [tplOption3, tplOption1, tplWelcome, tplOption2] = Some tplWelcome"
  by (simp add: isGreeting_def greetingWords_def toLowerCase_def lower_unit_def
      tplOption1_def tplOption2_def tplOption3_def tplWelcome_def js_def)

lemma find_greeting_example2:
  "find isGreeting [tplOption2, tplOption1] = None"
  by (simp add: isGreeting_def greetingWords_def toLowerCase_def lower_unit_def
      tplOption1_def tplOption2_def js_def)

text \<open>
  Four templates of distinct ids with a welcome template: the options come out in the
  order 1, 2, 3 in places 2 to 4 and hang on the welcome node; the first two are message
  nodes and the third, triggered by \<open>3\<close>, is the human node. Two options without a
  welcome template: they are message nodes and nothing starts at the start node.
\<close>

theorem synthesis_menu_options_witness:
  "menuOptionsOf [tplOption3, tplOption1, tplWelcome, tplOption2]
     = [tplOption1, tplOption2, tplOption3]
   \<and> map menuNumber [tplOption1, tplOption2, tplOption3] = [1, 2, 3]
   \<and> node_id (fst (convertTemplatesToFlow [tplOption3, tplOption1, tplWelcome, tplOption2]) ! 4)
       = js ''template-13''
   \<and> nodeTuple (fst (convertTemplatesToFlow [tplOption3, tplOption1, tplWelcome, tplOption2]) ! 2)
       = (Some [js ''1'', js ''comprar''], Some (js ''Buy''), Some True)
   \<and> type (fst (convertTemplatesToFlow [tplOption3, tplOption1, tplWelcome, tplOption2]) ! 2)
       = Message
   \<and> type (fst (convertTemplatesToFlow [tplOption3, tplOption1, tplWelcome, tplOption2]) ! 3)
       = Message
   \<and> type (fst (convertTemplatesToFlow [tplOption3, tplOption1, tplWelcome, tplOption2]) ! 4)
       = Human
   \<and> (js ''template-10'', js ''template-12'')
        \<in> set (map (\<lambda>c. (source c, target c))
                   (snd (convertTemplatesToFlow [tplOption3, tplOption1, tplWelcome, tplOption2])))
   \<and> menuOptionsOf [tplOption2, tplOption1] = [tplOption1, tplOption2]
   \<and> type (fst (convertTemplatesToFlow [tplOption2, tplOption1]) ! 2) = Message
   \<and> js ''start-1'' \<notin> set (map source (snd (convertTemplatesToFlow [tplOption2, tplOption1])))"
proof -
  let ?T1 = "[tplOption3, tplOption1, tplWelcome, tplOption2]"
  let ?T2 = "[tplOption2, tplOption1]"
  note m1 = menuOptionsOf_example1 and m2 = menuOptionsOf_example2
    and g1 = find_greeting_example1 and g2 = find_greeting_example2
  have w1: "welcomeOf ?T1 = [tplWelcome]" unfolding welcomeOf_def g1 by simp
  have w2: "welcomeOf ?T2 = []" unfolding welcomeOf_def g2 by simp
  have keys: "map menuNumber [tplOption1, tplOption2, tplOption3] = [1, 2, 3]"
    by (simp add: menuNumber_def parseInt_def menuDigits_def
        tplOption1_def tplOption2_def tplOption3_def js_def)
  have h2: "find isHumanOption [tplOption1, tplOption2] = None"
    by (simp add: isHumanOption_def toLowerCase_def lower_unit_def
        tplOption1_def tplOption2_def js_def)
  have hum: "\<not> isHumanOption tplOption1" "\<not> isHumanOption tplOption2" "isHumanOption tplOption3"
    by (simp_all add: isHumanOption_def toLowerCase_def lower_unit_def
        tplOption1_def tplOption2_def tplOption3_def js_def)
  have d1: "distinct (map template_id ?T1)"
    by (simp add: tplOption1_def tplOption2_def tplOption3_def tplWelcome_def js_def)
  have ids: "js ''template-'' @ template_id tplOption3 = js ''template-13''"
    "js ''template-'' @ template_id tplWelcome = js ''template-10''"
    "js ''template-'' @ template_id tplOption2 = js ''template-12''"
    by (simp_all add: tplOption3_def tplWelcome_def tplOption2_def js_def)
  have tup: "templateTuple tplOption1 = (Some [js ''1'', js ''comprar''], Some (js ''Buy''), Some True)"
    by (simp add: templateTuple_def tplOption1_def)
  from synthesis_menu_options[of ?T1, unfolded m1 w1 g1] d1
  have a: "\<forall>k<3. node_id (fst (convertTemplatesToFlow ?T1) ! (2 + k))
                    = js ''template-'' @ template_id ([tplOption1, tplOption2, tplOption3] ! k)
                 \<and> nodeTuple (fst (convertTemplatesToFlow ?T1) ! (2 + k))
                    = templateTuple ([tplOption1, tplOption2, tplOption3] ! k)
                 \<and> type (fst (convertTemplatesToFlow ?T1) ! (2 + k)) =
                     (if isHumanOption ([tplOption1, tplOption2, tplOption3] ! k)
                         \<and> (\<forall>j<k. \<not> isHumanOption ([tplOption1, tplOption2, tplOption3] ! j))
                      then Human else Message)"
    and b: "\<forall>m \<in> set [tplOption1, tplOption2, tplOption3].
              \<exists>c \<in> set (snd (convertTemplatesToFlow ?T1)).
                source c = js ''template-'' @ template_id tplWelcome
                \<and> target c = js ''template-'' @ template_id m"
    by simp_all
  from a[rule_format, of 2] have a2:
    "node_id (fst (convertTemplatesToFlow ?T1) ! 4) = js ''template-13''"
    by (simp add: ids)
  from a[rule_format, of 0] have a0:
    "nodeTuple (fst (convertTemplatesToFlow ?T1) ! 2)
       = (Some [js ''1'', js ''comprar''], Some (js ''Buy''), Some True)"
    by (simp add: tup)
  from a[rule_format, of 0] have t0: "type (fst (convertTemplatesToFlow ?T1) ! 2) = Message"
    by (simp add: hum)
  from a[rule_format, of 1] have t1: "type (fst (convertTemplatesToFlow ?T1) ! 3) = Message"
    by (simp add: hum)
  from a[rule_format, of 2] have t2: "type (fst (convertTemplatesToFlow ?T1) ! 4) = Human"
    by (simp add: hum less_2_cases_iff)
  from b have "\<exists>c \<in> set (snd (convertTemplatesToFlow ?T1)).
         source c = js ''template-10'' \<and> target c = js ''template-12''"
    by (simp add: ids)
  then have b2: "(js ''template-10'', js ''template-12'')
        \<in> set (map (\<lambda>c. (source c, target c)) (snd (convertTemplatesToFlow ?T1)))"
    by force
  from synthesis_menu_options[of ?T2, unfolded m2 w2 g2 h2]
  have c: "\<forall>k<2. type (fst (convertTemplatesToFlow ?T2) ! (1 + k)) = Message"
    and d: "\<forall>c \<in> set (snd (convertTemplatesToFlow ?T2)). source c \<noteq> js ''start-1''"
    by simp_all
  from c[rule_format, of 1] have c1: "type (fst (convertTemplatesToFlow ?T2) ! 2) = Message"
    by (simp add: numeral_2_eq_2)
  from d have d1: "js ''start-1'' \<notin> set (map source (snd (convertTemplatesToFlow ?T2)))"
    by auto
  from m1 keys a2 a0 t0 t1 t2 b2 m2 c1 d1 show ?thesis by blast
qed

text \<open>
  Claim C3 as stated fails on the single template triggered by \<open>3\<close>: it is a menu
  option and there is no welcome node, but its node is a human node, not a message node,
  and the graph has no connection at all, hence none from the start node to it.
\<close>

theorem synthesis_menu_options_counterexample:
  "trigger tplOption3 = [js ''3''] \<and> js ''3'' \<in> set menuDigits
   \<and> toLowerCase (js ''3'') \<notin> set greetingWords
   \<and> isMenuOption tplOption3
   \<and> find isGreeting [tplOption3] = None
   \<and> convertTemplatesToFlow [tplOption3] = ([startNode, humanNodeOf3, endNode], [])"
  by (simp add: convertTemplatesToFlow_def flowBeforeLeaves_def connectLeaves_def Let_def
      menuOptionsOf_def isMenuOption_def isGreeting_def isSpecial_def isHumanOption_def
      isComprarOption_def isLeaf_def includes_str_def sublist_Cons_right
      menuNumber_def parseInt_def menuDigits_def greetingWords_def toLowerCase_def lower_unit_def
      optionNode_def optionTitle_def templateData_def templateNodeId_def makeHuman_def
      pushConnection_def startNode_def endNode_def humanNodeOf3_def tplOption3_def js_def)

section \<open>Claims about the reconciliation\<close>






section \<open>Claims about the round trip\<close>

lemma isMessageOrHuman_core [simp]: "isMessageOrHuman (core n) = isMessageOrHuman n"
  by (simp add: isMessageOrHuman_def)

lemma replyTuples_core:
  "map nodeTuple (filter isMessageOrHuman (map core ns)) = map nodeTuple (filter isMessageOrHuman ns)"
  by (induction ns) auto

lemma optionNodes_all_message:
  "filter isMessageOrHuman (optionNodesFrom i opts) = optionNodesFrom i opts"
  by (induction opts arbitrary: i) (auto simp: isMessageOrHuman_def)

lemma optionNodes_tuples: "map nodeTuple (optionNodesFrom i opts) = map templateTuple opts"
  by (induction opts arbitrary: i) auto

lemma optionNodes_ids: "map node_id (optionNodesFrom i opts) = map templateNodeId opts"
  by (induction opts arbitrary: i) auto

lemma specialNodes_none_message: "filter isMessageOrHuman (specialNodesFrom i tpls) = []"
  by (induction tpls arbitrary: i) (auto simp: isMessageOrHuman_def specialNode_def)

lemma welcomeNode_fields [simp]:
  "nodeTuple (welcomeNode w) = templateTuple w" "isMessageOrHuman (welcomeNode w)"
  by (simp_all add: welcomeNode_def nodeTuple_def templateTuple_def templateData_def
      isMessageOrHuman_def)

lemma start_end_not_message [simp]:
  "\<not> isMessageOrHuman startNode" "\<not> isMessageOrHuman endNode"
  by (simp_all add: isMessageOrHuman_def startNode_def endNode_def)

lemma changeFirst_append:
  "nid \<in> node_id ` set xs \<Longrightarrow> changeFirst nid f (xs @ ys) = changeFirst nid f xs @ ys"
  by (induction xs) auto

lemma changeFirst_makeHuman_tuples:
  "\<forall>n \<in> set xs. isMessageOrHuman n \<Longrightarrow>
     map nodeTuple (filter isMessageOrHuman (changeFirst nid makeHuman xs)) = map nodeTuple xs"
  by (induction xs) (auto simp: isMessageOrHuman_def)

lemma welcome_and_options_tuples:
  "map nodeTuple (map welcomeNode ws @ optionNodesFrom i opts) = map templateTuple (ws @ opts)"
  by (simp add: optionNodes_tuples)

lemma welcome_and_options_all_message:
  "\<forall>n \<in> set (map welcomeNode ws @ optionNodesFrom i opts). isMessageOrHuman n"
proof -
  have "\<forall>n \<in> set (optionNodesFrom i opts). isMessageOrHuman n"
    by (metis filter_id_conv optionNodes_all_message)
  then show ?thesis by auto
qed

text \<open>
  The message and human nodes of a synthesized graph carry the tuples of the welcome
  template and of the menu options, in this order.
\<close>

lemma synthesis_replyTuples:
  "replyTuples (convertTemplatesToFlow T) = map templateTuple (welcomeOf T @ menuOptionsOf T)"
proof -
  let ?wo = "map welcomeNode (welcomeOf T) @ optionNodesFrom 0 (menuOptionsOf T)"
  let ?sp = "specialNodesFrom 0 (filter isSpecial T)"
  have plain: "map nodeTuple (filter isMessageOrHuman (startNode # ?wo @ ?sp))
                 = map templateTuple (welcomeOf T @ menuOptionsOf T)"
    by (simp add: optionNodes_all_message specialNodes_none_message optionNodes_tuples)
  have "map nodeTuple (filter isMessageOrHuman
          ((case find isHumanOption (menuOptionsOf T) of
              None \<Rightarrow> id | Some h \<Rightarrow> changeFirst (templateNodeId h) makeHuman)
             (startNode # ?wo @ ?sp)))
        = map templateTuple (welcomeOf T @ menuOptionsOf T)"
  proof (cases "find isHumanOption (menuOptionsOf T)")
    case None
    with plain show ?thesis by simp
  next
    case (Some h)
    then have "h \<in> set (menuOptionsOf T)" by (auto simp: find_Some_iff)
    then have "templateNodeId h \<in> set (map node_id (optionNodesFrom 0 (menuOptionsOf T)))"
      by (simp add: optionNodes_ids)
    then have mem: "templateNodeId h \<in> node_id ` set ?wo" by auto
    have "changeFirst (templateNodeId h) makeHuman (startNode # ?wo @ ?sp)
            = startNode # changeFirst (templateNodeId h) makeHuman ?wo @ ?sp"
      using changeFirst_append[OF mem, of makeHuman ?sp]
      by (simp add: templateNodeId_not_start[symmetric] del: templateNodeId_not_start)
    moreover have "map nodeTuple (filter isMessageOrHuman
                     (changeFirst (templateNodeId h) makeHuman ?wo)) = map nodeTuple ?wo"
      by (rule changeFirst_makeHuman_tuples) (rule welcome_and_options_all_message)
    ultimately show ?thesis
      using Some by (simp add: specialNodes_none_message optionNodes_tuples)
  qed
  then show ?thesis
    unfolding replyTuples_def
    using synthesis_skeleton[of T] replyTuples_core[of "fst (convertTemplatesToFlow T)"]
    by simp
qed

text \<open>A node whose three fields are set, with a response that is not empty.\<close>

lemma reconcileNode_request_tuple:
  assumes "isMessageOrHuman node"
    and "triggers (data node) = Some ts" and "data_response (data node) = Some x" and "x \<noteq> []"
    and "data_active (data node) = Some a"
  shows "\<exists>q. requests (reconcileNode st now existing project node r) = requests r @ [q]
             \<and> templateTuple (requestTemplate q) = nodeTuple node"
proof (cases "find (matchesNode node) existing")
  case None
  with assms show ?thesis
    by (auto simp: reconcileNode_def Let_def isMessageOrHuman_def templateTuple_def nodeTuple_def
        newTemplateOf_def nodeResponse_def split: create_result.splits)
next
  case (Some t)
  with assms show ?thesis
    by (auto simp: reconcileNode_def Let_def isMessageOrHuman_def templateTuple_def nodeTuple_def
        updatedTemplateOf_def nodeResponse_def)
qed

lemma reconcileNode_other:
  "\<not> isMessageOrHuman node \<Longrightarrow> reconcileNode st now existing project node r = r"
  by (simp add: reconcileNode_def isMessageOrHuman_def)

lemma flattened_tuples:
  assumes "\<forall>n \<in> set ns. isMessageOrHuman n \<longrightarrow>
             (\<exists>ts x a. triggers (data n) = Some ts \<and> data_response (data n) = Some x \<and> x \<noteq> []
                        \<and> data_active (data n) = Some a)"
  shows "map templateTuple (flattenedTemplates (reconcileNodes st now existing project ns r))
           = map templateTuple (flattenedTemplates r) @ map nodeTuple (filter isMessageOrHuman ns)"
  using assms
proof (induction ns arbitrary: r)
  case Nil
  then show ?case by (simp add: reconcileNodes_def)
next
  case (Cons n ns)
  have unfold: "reconcileNodes st now existing project (n # ns) r
                  = reconcileNodes st now existing project ns
                      (reconcileNode st now existing project n r)"
    by (simp add: reconcileNodes_def)
  from Cons.prems have rest: "\<forall>n \<in> set ns. isMessageOrHuman n \<longrightarrow>
             (\<exists>ts x a. triggers (data n) = Some ts \<and> data_response (data n) = Some x \<and> x \<noteq> []
                        \<and> data_active (data n) = Some a)"
    by simp
  show ?case
  proof (cases "isMessageOrHuman n")
    case False
    then show ?thesis
      unfolding unfold using Cons.IH[OF rest, of r] by (simp add: reconcileNode_other)
  next
    case True
    with Cons.prems obtain ts x a where
      f: "triggers (data n) = Some ts" "data_response (data n) = Some x" "x \<noteq> []"
         "data_active (data n) = Some a"
      by auto
    from reconcileNode_request_tuple[OF True f, of st now existing project r]
    obtain q where q: "requests (reconcileNode st now existing project n r) = requests r @ [q]"
      "templateTuple (requestTemplate q) = nodeTuple n"
      by blast
    then have "map templateTuple (flattenedTemplates (reconcileNode st now existing project n r))
                 = map templateTuple (flattenedTemplates r) @ [nodeTuple n]"
      by (simp add: flattenedTemplates_def)
    then show ?thesis
      unfolding unfold
      using Cons.IH[OF rest, of "reconcileNode st now existing project n r"] True by simp
  qed
qed

text \<open>The classification of a template looks at its triggers only.\<close>

lemma templateTuple_trigger: "templateTuple a = templateTuple b \<Longrightarrow> trigger a = trigger b"
  by (simp add: templateTuple_def)

lemma classes_by_tuple:
  assumes "templateTuple a = templateTuple b"
  shows "isGreeting a = isGreeting b" and "isMenuOption a = isMenuOption b"
  using templateTuple_trigger[OF assms] by (simp_all add: isGreeting_def isMenuOption_def)

lemma filter_menu_by_tuples:
  "map templateTuple F = map templateTuple X \<Longrightarrow>
     map templateTuple (filter isMenuOption F) = map templateTuple (filter isMenuOption X)"
proof (induction F arbitrary: X)
  case Nil
  then show ?case by simp
next
  case (Cons f F)
  then obtain x X' where X: "X = x # X'" by (cases X) auto
  with Cons.prems have "templateTuple f = templateTuple x"
    "map templateTuple F = map templateTuple X'"
    by simp_all
  with Cons.IH[of X'] X classes_by_tuple(2)[of f x] show ?case by simp
qed

lemma welcome_by_tuples:
  "map templateTuple F = map templateTuple X \<Longrightarrow>
     map templateTuple (welcomeOf F) = map templateTuple (welcomeOf X)"
proof (induction F arbitrary: X)
  case Nil
  then show ?case by (simp add: welcomeOf_def)
next
  case (Cons f F)
  then obtain x X' where X: "X = x # X'" by (cases X) auto
  with Cons.prems have e: "templateTuple f = templateTuple x"
    "map templateTuple F = map templateTuple X'"
    by simp_all
  show ?case
  proof (cases "isGreeting f")
    case True
    with classes_by_tuple(1)[OF e(1)] e(1) X show ?thesis by (simp add: welcomeOf_def)
  next
    case False
    with classes_by_tuple(1)[OF e(1)] have "\<not> isGreeting x" by simp
    with False Cons.IH[OF e(2)] X show ?thesis by (simp add: welcomeOf_def)
  qed
qed

lemma welcomeOf_fixed: "welcomeOf (welcomeOf T @ menuOptionsOf T) = welcomeOf T"
proof (cases "find isGreeting T")
  case None
  have "\<forall>m \<in> set (menuOptionsOf T). \<not> isGreeting m"
    using menuOptions_are_menu by (auto simp: isMenuOption_def)
  then have "find isGreeting (menuOptionsOf T) = None" by (simp add: find_None_iff)
  with None show ?thesis by (simp add: welcomeOf_def)
next
  case (Some w)
  then have "isGreeting w" by (auto simp: find_Some_iff)
  with Some show ?thesis by (simp add: welcomeOf_def)
qed

lemma menu_filter_fixed:
  "filter isMenuOption (welcomeOf T @ menuOptionsOf T) = menuOptionsOf T"
proof -
  have "filter isMenuOption (welcomeOf T) = []"
    using welcome_is_greeting[of _ T] by (auto simp: filter_empty_conv isMenuOption_def)
  moreover have "filter isMenuOption (menuOptionsOf T) = menuOptionsOf T"
    using menuOptions_are_menu[of _ T] by (simp add: filter_id_conv)
  ultimately show ?thesis by simp
qed

lemma set_menu_tuples:
  "set (map templateTuple (menuOptionsOf F)) = set (map templateTuple (filter isMenuOption F))"
  by (simp add: menuOptionsOf_def)

text \<open>
  Claim C2, amended. For every template list such that no message or human node of the
  graph synthesized from it has an empty response: flattening that graph (the templates the
  reconciliation hands to the store for its nodes, whatever the persisted templates and the
  answers of the store) and synthesizing a graph from the flattened list gives message and
  human nodes with exactly the same set of (triggers, response, active) as those of the
  first graph.
\<close>

theorem roundtrip_reply_tuples:
  assumes "requests r = []"
    and "\<forall>n \<in> set (fst (convertTemplatesToFlow T)).
           (type n = Message \<or> type n = Human) \<longrightarrow> data_response (data n) \<noteq> Some []"
  shows "set (replyTuples (convertTemplatesToFlow
                (flattenedTemplates
                   (reconcileNodes st now existing project (fst (convertTemplatesToFlow T)) r))))
         = set (replyTuples (convertTemplatesToFlow T))"
proof -
  let ?G = "convertTemplatesToFlow T"
  let ?X = "welcomeOf T @ menuOptionsOf T"
  let ?F = "flattenedTemplates (reconcileNodes st now existing project (fst ?G) r)"
  have g: "replyTuples ?G = map templateTuple ?X" by (rule synthesis_replyTuples)
  have complete: "\<forall>n \<in> set (fst ?G). isMessageOrHuman n \<longrightarrow>
             (\<exists>ts x a. triggers (data n) = Some ts \<and> data_response (data n) = Some x \<and> x \<noteq> []
                        \<and> data_active (data n) = Some a)"
  proof (intro ballI impI)
    fix n assume n: "n \<in> set (fst ?G)" "isMessageOrHuman n"
    then have "nodeTuple n \<in> set (replyTuples ?G)" by (simp add: replyTuples_def)
    with g obtain t where "nodeTuple n = templateTuple t" by auto
    then have f: "triggers (data n) = Some (trigger t)" "data_response (data n) = Some (response t)"
      "data_active (data n) = Some (active t)"
      by (simp_all add: nodeTuple_def templateTuple_def)
    from n assms(2) have "data_response (data n) \<noteq> Some []"
      unfolding isMessageOrHuman_def by blast
    with f have "response t \<noteq> []" by simp
    with f show "\<exists>ts x a. triggers (data n) = Some ts \<and> data_response (data n) = Some x \<and> x \<noteq> []
                        \<and> data_active (data n) = Some a"
      by blast
  qed
  have "map templateTuple ?F
          = map templateTuple (flattenedTemplates r) @ map nodeTuple (filter isMessageOrHuman (fst ?G))"
    by (rule flattened_tuples[OF complete])
  with assms(1) g have f: "map templateTuple ?F = map templateTuple ?X"
    by (simp add: flattenedTemplates_def replyTuples_def)
  have "set (replyTuples (convertTemplatesToFlow ?F))
          = set (map templateTuple (welcomeOf ?F)) \<union> set (map templateTuple (menuOptionsOf ?F))"
    by (simp add: synthesis_replyTuples)
  also have "map templateTuple (welcomeOf ?F) = map templateTuple (welcomeOf ?X)"
    by (rule welcome_by_tuples[OF f])
  also have "set (map templateTuple (menuOptionsOf ?F))
               = set (map templateTuple (filter isMenuOption ?X))"
    unfolding set_menu_tuples using filter_menu_by_tuples[OF f] by simp
  finally have "set (replyTuples (convertTemplatesToFlow ?F))
          = set (map templateTuple (welcomeOf T)) \<union> set (map templateTuple (menuOptionsOf T))"
    by (simp only: welcomeOf_fixed menu_filter_fixed)
  with g show ?thesis by simp
qed

lemma synthesis_example_two:
  "fst (convertTemplatesToFlow [tplOption1, tplWelcome]) =
     [pushConnection (js ''template-10'') startNode,
      pushConnection (js ''template-11'') (welcomeNode tplWelcome),
      pushConnection (js ''end-1'') (optionNode 0 tplOption1),
      endNode]"
  by (simp add: convertTemplatesToFlow_def flowBeforeLeaves_def connectLeaves_def Let_def
      menuOptionsOf_def isMenuOption_def isGreeting_def isSpecial_def isHumanOption_def
      isComprarOption_def isLeaf_def includes_str_def sublist_Cons_right
      menuNumber_def parseInt_def menuDigits_def greetingWords_def toLowerCase_def lower_unit_def
      optionNode_def optionTitle_def templateData_def templateNodeId_def welcomeNode_def
      pushConnection_def startNode_def endNode_def tplOption1_def tplWelcome_def js_def)

text \<open>
  A welcome template and one menu option, persisted as they are.
\<close>

theorem roundtrip_reply_tuples_witness:
  "set (replyTuples (convertTemplatesToFlow
          (flattenedTemplates
             (reconcileNodes acceptingStore 0 [tplOption1, tplWelcome] (Some (js ''1''))
                (fst (convertTemplatesToFlow [tplOption1, tplWelcome])) noRequests))))
     = {templateTuple tplWelcome, templateTuple tplOption1}"
proof -
  have h1: "requests noRequests = []" by (simp add: noRequests_def)
  have h2: "\<forall>n \<in> set (fst (convertTemplatesToFlow [tplOption1, tplWelcome])).
           (type n = Message \<or> type n = Human) \<longrightarrow> data_response (data n) \<noteq> Some []"
    unfolding synthesis_example_two
    by (simp add: pushConnection_def startNode_def endNode_def welcomeNode_def optionNode_def
        templateData_def tplOption1_def tplWelcome_def js_def)
  have t: "replyTuples (convertTemplatesToFlow [tplOption1, tplWelcome])
             = [templateTuple tplWelcome, templateTuple tplOption1]"
    unfolding replyTuples_def synthesis_example_two
    by (simp add: isMessageOrHuman_def nodeTuple_def templateTuple_def pushConnection_def
        startNode_def endNode_def welcomeNode_def optionNode_def templateData_def)
  from roundtrip_reply_tuples[OF h1 h2, of acceptingStore 0 "[tplOption1, tplWelcome]"
      "Some (js ''1'')"]
  show ?thesis unfolding t by simp
qed

lemma synthesis_blankWelcome:
  "fst (convertTemplatesToFlow [blankWelcome]) =
     [pushConnection (js ''template-10'') startNode,
      pushConnection (js ''end-1'') (welcomeNode blankWelcome),
      endNode]"
  by (simp add: convertTemplatesToFlow_def flowBeforeLeaves_def connectLeaves_def Let_def
      menuOptionsOf_def isMenuOption_def isGreeting_def isSpecial_def isHumanOption_def
      isComprarOption_def isLeaf_def includes_str_def sublist_Cons_right
      menuNumber_def parseInt_def menuDigits_def greetingWords_def toLowerCase_def lower_unit_def
      templateData_def templateNodeId_def welcomeNode_def
      pushConnection_def startNode_def endNode_def blankWelcome_def js_def)

lemma flatten_blankWelcome:
  "flattenedTemplates
     (reconcileNodes acceptingStore 0 [blankWelcome] (Some (js ''1''))
        (fst (convertTemplatesToFlow [blankWelcome])) noRequests)
   = [\<lparr>template_id = js ''10'', trigger = [js ''oi''], response = js ''Boas-vindas'',
       active = True\<rparr>]"
  unfolding synthesis_blankWelcome
  by (simp add: flattenedTemplates_def reconcileNodes_def reconcileNode_def matchesNode_def
      updatedTemplateOf_def nodeResponse_def Let_def acceptingStore_def noRequests_def
      pushConnection_def startNode_def endNode_def welcomeNode_def templateData_def
      templateNodeId_def blankWelcome_def js_def)

text \<open>
  Claim C2 as stated fails on a welcome template with an empty response: flattening sends
  the title of the node, \<open>Boas-vindas\<close>, as the response, and the node of the second
  graph carries that text where the node of the first graph carries the empty one. (A
  flattening that skipped the node, as the claim words it, would lose the tuple as well.)
\<close>

theorem roundtrip_blank_response_counterexample:
  "replyTuples (convertTemplatesToFlow [blankWelcome])
     = [(Some [js ''oi''], Some [], Some True)]
   \<and> replyTuples (convertTemplatesToFlow
        (flattenedTemplates
           (reconcileNodes acceptingStore 0 [blankWelcome] (Some (js ''1''))
              (fst (convertTemplatesToFlow [blankWelcome])) noRequests)))
     = [(Some [js ''oi''], Some (js ''Boas-vindas''), Some True)]
   \<and> js ''Boas-vindas'' \<noteq> []"
  unfolding flatten_blankWelcome synthesis_replyTuples
  by (simp add: welcomeOf_def menuOptionsOf_def isGreeting_def isMenuOption_def templateTuple_def
      greetingWords_def menuDigits_def toLowerCase_def lower_unit_def blankWelcome_def js_def)

end
